theory Spec2Isabelle
  imports Complex_Main "HOL-Library.Char_ord" "HOL-Library.List_Lexorder"
begin

section \<open>JavaScript numbers\<close>

text \<open>
  A JavaScript number is an IEEE double: a finite value, here the real it denotes, or
  NaN. The infinities and the limits of the exponent are left out; coordinates, clock
  readings and speeds stay far from them. An arithmetic operation returns the exact
  result rounded to the nearest double, a tie going to the even significand.
\<close>

datatype number = Num real | NaN

definition round_even :: "real \<Rightarrow> int" where
  "round_even y =
     (let n = \<lfloor>y\<rfloor>; r = y - of_int n
      in if r < 1 / 2 then n else if 1 / 2 < r then n + 1 else if even n then n else n + 1)"

text \<open>\<open>fl x\<close>: the double nearest to \<open>x\<close>, with its 53-bit significand.\<close>

definition fl :: "real \<Rightarrow> real" where
  "fl x =
     (if x = 0 then 0
      else let k = \<lfloor>log 2 \<bar>x\<bar>\<rfloor> - 52
           in of_int (round_even (x / 2 powr of_int k)) * 2 powr of_int k)"

fun fadd :: "number \<Rightarrow> number \<Rightarrow> number" where
  "fadd (Num x) (Num y) = Num (fl (x + y))"
| "fadd x y = NaN"

fun fsub :: "number \<Rightarrow> number \<Rightarrow> number" where
  "fsub (Num x) (Num y) = Num (fl (x - y))"
| "fsub x y = NaN"

fun fmul :: "number \<Rightarrow> number \<Rightarrow> number" where
  "fmul (Num x) (Num y) = Num (fl (x * y))"
| "fmul x y = NaN"

text \<open>
  Every divisor of the program is a non-zero literal or a \<^verbatim>\<open>timeDiff\<close> tested to be
  positive; a division by zero, which would give an infinity, is mapped to NaN.
\<close>

fun fdiv :: "number \<Rightarrow> number \<Rightarrow> number" where
  "fdiv (Num x) (Num y) = (if y = 0 then NaN else Num (fl (x / y)))"
| "fdiv x y = NaN"

text \<open>\<^verbatim>\<open>x > y\<close>: false when an operand is NaN.\<close>

fun js_gt :: "number \<Rightarrow> number \<Rightarrow> bool" where
  "js_gt (Num x) (Num y) = (y < x)"
| "js_gt x y = False"

subsection \<open>The Math library\<close>

text \<open>\<^verbatim>\<open>Math.PI\<close>, the double \<open>3.141592653589793\<close>.\<close>

definition Math_PI :: real where
  "Math_PI = 884279719003555 / 2 ^ 48"

text \<open>\<^verbatim>\<open>Math.round(x)\<close>: the nearest integer, a tie going up; it is exact.\<close>

fun Math_round :: "number \<Rightarrow> number" where
  "Math_round (Num x) = Num (of_int \<lfloor>x + 1 / 2\<rfloor>)"
| "Math_round NaN = NaN"

text \<open>
  The values of \<^verbatim>\<open>Math.sin\<close>, \<^verbatim>\<open>Math.cos\<close>, \<^verbatim>\<open>Math.sqrt\<close> and \<^verbatim>\<open>Math.atan2\<close> on finite
  arguments are approximations that the engine chooses; they are a parameter of the
  embedding. What the language fixes is written out: NaN for a NaN argument and for the
  square root of a negative number.
\<close>

record engine =
  lib_sin :: "real \<Rightarrow> real"
  lib_cos :: "real \<Rightarrow> real"
  lib_sqrt :: "real \<Rightarrow> real"
  lib_atan2 :: "real \<Rightarrow> real \<Rightarrow> real"

fun Math_sin :: "engine \<Rightarrow> number \<Rightarrow> number" where
  "Math_sin e (Num x) = Num (lib_sin e x)"
| "Math_sin e NaN = NaN"

fun Math_cos :: "engine \<Rightarrow> number \<Rightarrow> number" where
  "Math_cos e (Num x) = Num (lib_cos e x)"
| "Math_cos e NaN = NaN"

fun Math_sqrt :: "engine \<Rightarrow> number \<Rightarrow> number" where
  "Math_sqrt e (Num x) = (if x < 0 then NaN else Num (lib_sqrt e x))"
| "Math_sqrt e NaN = NaN"

fun Math_atan2 :: "engine \<Rightarrow> number \<Rightarrow> number \<Rightarrow> number" where
  "Math_atan2 e (Num y) (Num x) = Num (lib_atan2 e y x)"
| "Math_atan2 e y x = NaN"

section \<open>Location service: haversine distance and derived speed\<close>

text \<open>
  The embedding follows \<^verbatim>\<open>src/services/locationService.ts\<close>. Readings of
  \<^verbatim>\<open>Date.now()\<close> are integers (milliseconds) and are passed in as arguments, one per
  call site.
\<close>

subsection \<open>\<^verbatim>\<open>LocationService.calculateDistance\<close>\<close>

definition calculateDistance :: "engine \<Rightarrow> real \<Rightarrow> real \<Rightarrow> real \<Rightarrow> real \<Rightarrow> number" where
  "calculateDistance e lat1 lon1 lat2 lon2 =
     (let R = Num 6371000;
          phi1 = fdiv (fmul (Num lat1) (Num Math_PI)) (Num 180);
          phi2 = fdiv (fmul (Num lat2) (Num Math_PI)) (Num 180);
          dphi = fdiv (fmul (fsub (Num lat2) (Num lat1)) (Num Math_PI)) (Num 180);
          dlam = fdiv (fmul (fsub (Num lon2) (Num lon1)) (Num Math_PI)) (Num 180);
          a = fadd (fmul (Math_sin e (fdiv dphi (Num 2))) (Math_sin e (fdiv dphi (Num 2))))
                (fmul (fmul (fmul (Math_cos e phi1) (Math_cos e phi2))
                         (Math_sin e (fdiv dlam (Num 2))))
                   (Math_sin e (fdiv dlam (Num 2))));
          c = fmul (Num 2) (Math_atan2 e (Math_sqrt e a) (Math_sqrt e (fsub (Num 1) a)))
      in fmul R c)"

subsection \<open>Data of the location service\<close>

text \<open>
  The browser's \<^verbatim>\<open>GeolocationCoordinates\<close>; \<^verbatim>\<open>speed\<close> and \<^verbatim>\<open>heading\<close> are
  \<^verbatim>\<open>number | null\<close>. Its fields carry the prefix \<open>coords_\<close> to keep them apart from
  \<^verbatim>\<open>LocationData\<close>; the provider reports finite values.
\<close>

record GeolocationCoordinates =
  coords_latitude :: real
  coords_longitude :: real
  coords_accuracy :: real
  coords_speed :: "real option"
  coords_heading :: "real option"

record LocationData =
  latitude :: real
  longitude :: real
  speed :: number
  timestamp :: int
  accuracy :: real

text \<open>The private fields of \<^verbatim>\<open>class LocationService\<close>.\<close>

record LocationService =
  watchId :: "nat option"
  previousLocation :: "GeolocationCoordinates option"
  previousTimestamp :: "int option"

definition newLocationService :: LocationService where
  "newLocationService = \<lparr>watchId = None, previousLocation = None, previousTimestamp = None\<rparr>"

text \<open>
  \<^verbatim>\<open>navigator.geolocation\<close>: the watches that are registered, in the order of their
  registration, and the identifier the next \<^verbatim>\<open>watchPosition\<close> returns. A position
  fix is delivered to the callbacks of the registered watches and to no other.
\<close>

record Geolocation =
  watches :: "nat list"
  nextWatch :: nat

definition watchPosition :: "Geolocation \<Rightarrow> nat \<times> Geolocation" where
  "watchPosition g = (nextWatch g, g\<lparr>watches := watches g @ [nextWatch g], nextWatch := Suc (nextWatch g)\<rparr>)"

definition clearWatch :: "nat \<Rightarrow> Geolocation \<Rightarrow> Geolocation" where
  "clearWatch w g = g\<lparr>watches := removeAll w (watches g)\<rparr>"

subsection \<open>\<^verbatim>\<open>LocationService.calculateSpeed\<close>\<close>

text \<open>\<^verbatim>\<open>x || 0\<close> for a \<^verbatim>\<open>number | null\<close>: \<^verbatim>\<open>null\<close> (and \<open>0\<close>) give \<open>0\<close>.\<close>

definition number_or_0 :: "real option \<Rightarrow> real" where
  "number_or_0 v = (case v of None \<Rightarrow> 0 | Some x \<Rightarrow> x)"

text \<open>
  \<open>now1\<close> is the reading of the first \<^verbatim>\<open>Date.now()\<close> that a call executes (line 93 in
  the seeding branch, line 104 otherwise), \<open>now2\<close> the reading at line 108. The test
  \<^verbatim>\<open>!this.previousLocation || !this.previousTimestamp\<close> also holds for a stored
  timestamp \<open>0\<close>. The literal \<^verbatim>\<open>3.6\<close> is the double nearest to it.
\<close>

definition calculateSpeed ::
  "engine \<Rightarrow> LocationService \<Rightarrow> GeolocationCoordinates \<Rightarrow> int \<Rightarrow> int \<Rightarrow> number \<times> LocationService" where
  "calculateSpeed e svc coords now1 now2 =
     (case (previousLocation svc, previousTimestamp svc) of
        (Some prev, Some pts) \<Rightarrow>
          if pts = 0 then
            (Num (number_or_0 (coords_speed coords)),
             svc\<lparr>previousLocation := Some coords, previousTimestamp := Some now1\<rparr>)
          else
            let distance = calculateDistance e (coords_latitude prev) (coords_longitude prev)
                             (coords_latitude coords) (coords_longitude coords);
                timeDiff = fdiv (fsub (Num (of_int now1)) (Num (of_int pts))) (Num 1000);
                speed = (if js_gt timeDiff (Num 0)
                         then fmul (fdiv distance timeDiff) (Num (fl 3.6)) else Num 0)
            in (fdiv (Math_round (fmul speed (Num 10))) (Num 10),
                svc\<lparr>previousLocation := Some coords, previousTimestamp := Some now2\<rparr>)
      | _ \<Rightarrow>
          (Num (number_or_0 (coords_speed coords)),
           svc\<lparr>previousLocation := Some coords, previousTimestamp := Some now1\<rparr>))"

subsection \<open>One-shot fetch, watch and \<^verbatim>\<open>stopWatching\<close>\<close>

text \<open>What the provider answers to a request: a position or an error message.\<close>

datatype geo_reply = Position GeolocationCoordinates | PositionError string

text \<open>
  \<^verbatim>\<open>getCurrentPosition\<close>: \<open>supported\<close> is \<^verbatim>\<open>navigator.geolocation\<close> being present; the
  promise rejects (\<open>Inl\<close>) or resolves (\<open>Inr\<close>). \<open>now3\<close> is the reading of
  \<^verbatim>\<open>Date.now()\<close> for the \<^verbatim>\<open>timestamp\<close> field, taken after \<^verbatim>\<open>calculateSpeed\<close>
  returned.
\<close>

definition getCurrentPosition ::
  "engine \<Rightarrow> bool \<Rightarrow> geo_reply \<Rightarrow> int \<Rightarrow> int \<Rightarrow> int \<Rightarrow> LocationService \<Rightarrow>
     (string + LocationData) \<times> LocationService" where
  "getCurrentPosition e supported reply now1 now2 now3 svc =
     (if \<not> supported then (Inl ''Geolocation is not supported'', svc)
      else case reply of
             PositionError err \<Rightarrow> (Inl err, svc)
           | Position coords \<Rightarrow>
               (let (v, svc') = calculateSpeed e svc coords now1 now2
                in (Inr \<lparr>latitude = coords_latitude coords, longitude = coords_longitude coords,
                         speed = v, timestamp = now3, accuracy = coords_accuracy coords\<rparr>, svc')))"

text \<open>
  One fix of the watch that \<^verbatim>\<open>startWatching\<close> registered (lines 54 to 66): the
  sample handed to the caller's callback, and the new state.
\<close>

definition watchTick ::
  "engine \<Rightarrow> GeolocationCoordinates \<Rightarrow> int \<Rightarrow> int \<Rightarrow> int \<Rightarrow> LocationService \<Rightarrow>
     LocationData \<times> LocationService" where
  "watchTick e coords now1 now2 now3 svc =
     (let (v, svc') = calculateSpeed e svc coords now1 now2;
          locationData = \<lparr>latitude = coords_latitude coords, longitude = coords_longitude coords,
                          speed = v, timestamp = now3, accuracy = coords_accuracy coords\<rparr>
      in (locationData, svc'))"

definition startWatching :: "bool \<Rightarrow> LocationService \<times> Geolocation \<Rightarrow> (string + unit) \<times> LocationService \<times> Geolocation" where
  "startWatching supported sg =
     (case sg of (svc, g) \<Rightarrow>
        if \<not> supported then (Inl ''Geolocation is not supported'', svc, g)
        else let (w, g') = watchPosition g in (Inr (), svc\<lparr>watchId := Some w\<rparr>, g'))"

definition stopWatching :: "LocationService \<times> Geolocation \<Rightarrow> LocationService \<times> Geolocation" where
  "stopWatching sg =
     (case sg of (svc, g) \<Rightarrow>
        (case watchId svc of
           Some w \<Rightarrow> (svc\<lparr>watchId := None, previousLocation := None, previousTimestamp := None\<rparr>,
                      clearWatch w g)
         | None \<Rightarrow> (svc, g)))"

subsection \<open>The derived speed as the specification words it\<close>

text \<open>
  \<open>deriveSpeedKmh\<close> is written from the specification, on the state of the service:
  without a previous coordinate the provider's speed (or \<open>0\<close>), otherwise distance over
  elapsed seconds times \<open>3.6\<close>, or \<open>0\<close> when no time has elapsed; the value returned is
  rounded to one decimal place and the state advances to the coordinate and \<open>nowMs\<close>.
  The specification does not describe a state with a coordinate and no timestamp; the
  reference seeds there.
\<close>

definition round1 :: "number \<Rightarrow> number" where
  "round1 x = fdiv (Math_round (fmul x (Num 10))) (Num 10)"

definition deriveSpeedKmh ::
  "engine \<Rightarrow> LocationService \<Rightarrow> GeolocationCoordinates \<Rightarrow> int \<Rightarrow> number \<times> LocationService" where
  "deriveSpeedKmh e state coord nowMs =
     (let v = (case (previousLocation state, previousTimestamp state) of
                 (Some previous, Some previousTimestampMs) \<Rightarrow>
                   (let elapsedSeconds =
                          fdiv (fsub (Num (of_int nowMs)) (Num (of_int previousTimestampMs))) (Num 1000)
                    in if js_gt elapsedSeconds (Num 0)
                       then fmul (fdiv (calculateDistance e (coords_latitude previous)
                                          (coords_longitude previous)
                                          (coords_latitude coord) (coords_longitude coord))
                                    elapsedSeconds)
                              (Num (fl 3.6))
                       else Num 0)
               | _ \<Rightarrow> Num (number_or_0 (coords_speed coord)))
      in (round1 v, state\<lparr>previousLocation := Some coord, previousTimestamp := Some nowMs\<rparr>))"

text \<open>The speed in km/h between two fixes, before rounding; \<open>0\<close> when no time elapsed.\<close>

definition kmh :: "engine \<Rightarrow> GeolocationCoordinates \<Rightarrow> int \<Rightarrow> GeolocationCoordinates \<Rightarrow> int \<Rightarrow> number" where
  "kmh e prev pts coords now =
     (if pts < now
      then fmul (fdiv (calculateDistance e (coords_latitude prev) (coords_longitude prev)
                         (coords_latitude coords) (coords_longitude coords))
                   (fdiv (fsub (Num (of_int now)) (Num (of_int pts))) (Num 1000)))
             (Num (fl 3.6))
      else Num 0)"

subsection \<open>Sample positions and a sample engine\<close>

text \<open>Two of the bus stops listed in the dashboard, as positions of the provider.\<close>

definition gandhipuram :: GeolocationCoordinates where
  "gandhipuram =
     \<lparr>coords_latitude = 11.0168, coords_longitude = 76.9558, coords_accuracy = 5,
      coords_speed = Some (1 / 4), coords_heading = None\<rparr>"

definition rsPuram :: GeolocationCoordinates where
  "rsPuram =
     \<lparr>coords_latitude = 11.0045, coords_longitude = 76.9612, coords_accuracy = 5,
      coords_speed = None, coords_heading = None\<rparr>"

text \<open>\<^verbatim>\<open>atan2\<close> on the reals: the angle of the point \<open>(x, y)\<close>.\<close>

definition atan2 :: "real \<Rightarrow> real \<Rightarrow> real" where
  "atan2 y x =
     (if 0 < x then arctan (y / x)
      else if x < 0 then (if 0 \<le> y then arctan (y / x) + pi else arctan (y / x) - pi)
      else if 0 < y then pi / 2
      else if y < 0 then - (pi / 2)
      else 0)"

text \<open>
  An engine whose library returns the nearest double. At the three arguments that
  arise for the positions \<open>(8, 0)\<close> and \<open>(-8, 180)\<close> its sine and cosine are written
  out: \<open>sin (-0.13962634015954636) = -0.13917310096006544\<close>,
  \<open>sin 1.5707963267948966 = 1\<close> and \<open>cos 0.13962634015954636 = 0.9902680687415704\<close> for either sign of the argument.
\<close>

definition sample_engine :: engine where
  "sample_engine =
     \<lparr>lib_sin = (\<lambda>x. if x = - (5030569068109113 / 2 ^ 55) then - (5014239404989977 / 2 ^ 55)
                      else if x = 884279719003555 / 2 ^ 49 then 1
                      else fl (sin x)),
      lib_cos = (\<lambda>x. if x = 5030569068109113 / 2 ^ 55 \<or> x = - (5030569068109113 / 2 ^ 55)
                      then 4459770905381437 / 2 ^ 52
                      else fl (cos x)),
      lib_sqrt = (\<lambda>x. fl (sqrt x)),
      lib_atan2 = (\<lambda>y x. fl (atan2 y x))\<rparr>"

section \<open>Firebase service: the collection \<^verbatim>\<open>liveLocations\<close>\<close>

text \<open>
  The embedding follows \<^verbatim>\<open>FirebaseService\<close>. A Firestore document is a finite map
  from field names to values. The store holds the documents of \<^verbatim>\<open>liveLocations\<close> and
  of the collections nested below it, each under its reference: the path segments after
  \<^verbatim>\<open>liveLocations\<close>. A document of \<^verbatim>\<open>liveLocations\<close> itself has a reference of one
  segment, its identifier. The store is a list of pairs so that a query can enumerate
  it. A write to a valid reference is taken to reach the backend and to be accepted.
\<close>

datatype fval = FStr string | FNum number | FBool bool

type_synonym doc = "string \<Rightarrow> fval option"

type_synonym ref = "string list"

type_synonym collection = "(ref \<times> doc) list"

datatype store_error = NotFound | InvalidArgument

record LiveLocation = LocationData +
  driverId :: string
  busNumber :: string
  isActive :: bool

text \<open>The object literal a \<^verbatim>\<open>LiveLocation\<close> is, as the fields Firestore receives.\<close>

definition docFields :: "LiveLocation \<Rightarrow> doc" where
  "docFields l =
     [''driverId'' \<mapsto> FStr (driverId l),
      ''busNumber'' \<mapsto> FStr (busNumber l),
      ''latitude'' \<mapsto> FNum (Num (latitude l)),
      ''longitude'' \<mapsto> FNum (Num (longitude l)),
      ''speed'' \<mapsto> FNum (speed l),
      ''timestamp'' \<mapsto> FNum (Num (of_int (timestamp l))),
      ''accuracy'' \<mapsto> FNum (Num (accuracy l)),
      ''isActive'' \<mapsto> FBool (isActive l)]"

subsection \<open>The Firestore operations the service calls\<close>

text \<open>
  \<^verbatim>\<open>doc(db, 'liveLocations', driverId)\<close>: the SDK refuses a path component that
  contains \<^verbatim>\<open>//\<close>, splits each component at \<^verbatim>\<open>/\<close>, drops the empty pieces, and
  refuses the path unless the number of segments is even. So the empty string and
  \<^verbatim>\<open>a/b\<close> make \<^verbatim>\<open>doc\<close> throw, \<^verbatim>\<open>a\<close> and \<^verbatim>\<open>a/\<close> name the document \<^verbatim>\<open>a\<close> of
  \<^verbatim>\<open>liveLocations\<close>, and \<^verbatim>\<open>a/b/c\<close> names the document \<^verbatim>\<open>c\<close> of a nested collection.
\<close>

fun split_slash :: "string \<Rightarrow> string list" where
  "split_slash [] = [[]]"
| "split_slash (c # cs) =
     (if c = CHR ''/'' then [] # split_slash cs
      else (case split_slash cs of s # ss \<Rightarrow> (c # s) # ss | [] \<Rightarrow> [[c]]))"

fun has_double_slash :: "string \<Rightarrow> bool" where
  "has_double_slash (a # b # cs) = ((a = CHR ''/'' \<and> b = CHR ''/'') \<or> has_double_slash (b # cs))"
| "has_double_slash cs = False"

definition docRef :: "string \<Rightarrow> ref option" where
  "docRef driverId' =
     (if has_double_slash driverId' then None
      else let segments = ''liveLocations'' # filter (\<lambda>s. s \<noteq> []) (split_slash driverId')
           in if even (length segments) then Some (tl segments) else None)"

text \<open>\<^verbatim>\<open>getDoc\<close>: the document stored under a reference, if any.\<close>

definition getDoc :: "ref \<Rightarrow> collection \<Rightarrow> doc option" where
  "getDoc r c = map_of c r"

text \<open>
  \<^verbatim>\<open>setDoc(ref, data, { merge: true })\<close>: the fields of \<open>data\<close> overwrite those of
  the stored document, the other stored fields stay; a missing document is created.
\<close>

fun setDoc_merge :: "ref \<Rightarrow> doc \<Rightarrow> collection \<Rightarrow> collection" where
  "setDoc_merge r data [] = [(r, data)]"
| "setDoc_merge r data ((r', d) # rest) =
     (if r' = r then (r', d ++ data) # rest else (r', d) # setDoc_merge r data rest)"

text \<open>
  \<^verbatim>\<open>updateDoc(ref, data)\<close>: as the merge on a stored document; on a missing document
  the promise rejects and nothing is written.
\<close>

definition updateDoc :: "ref \<Rightarrow> doc \<Rightarrow> collection \<Rightarrow> (store_error + unit) \<times> collection" where
  "updateDoc r data c =
     (case getDoc r c of
        None \<Rightarrow> (Inl NotFound, c)
      | Some d \<Rightarrow> (Inr (), setDoc_merge r data c))"

text \<open>
  Firestore's order of field values: booleans before numbers before strings, NaN before
  every other number. A query that orders by a field leaves out the documents without
  that field and breaks ties by document reference, in the direction of the ordering.
\<close>

fun num_less :: "number \<Rightarrow> number \<Rightarrow> bool" where
  "num_less (Num a) (Num b) = (a < b)"
| "num_less NaN (Num b) = True"
| "num_less x y = False"

fun fval_less :: "fval \<Rightarrow> fval \<Rightarrow> bool" where
  "fval_less (FBool a) (FBool b) = (\<not> a \<and> b)"
| "fval_less (FBool a) (FNum b) = True"
| "fval_less (FBool a) (FStr b) = True"
| "fval_less (FNum a) (FNum b) = num_less a b"
| "fval_less (FNum a) (FStr b) = True"
| "fval_less (FStr a) (FStr b) = (a < b)"
| "fval_less x y = False"

text \<open>
  A query on \<^verbatim>\<open>collection(db, 'liveLocations')\<close> ranges over the documents of that
  collection, not over those of the collections nested below it.
\<close>

definition in_liveLocations :: "ref \<times> doc \<Rightarrow> bool" where
  "in_liveLocations kd = (length (fst kd) = 1)"

definition where_eq :: "string \<Rightarrow> fval \<Rightarrow> ref \<times> doc \<Rightarrow> bool" where
  "where_eq f v kd = (snd kd f = Some v)"

definition has_field :: "string \<Rightarrow> ref \<times> doc \<Rightarrow> bool" where
  "has_field f kd = (snd kd f \<noteq> None)"

definition before_desc :: "string \<Rightarrow> ref \<times> doc \<Rightarrow> ref \<times> doc \<Rightarrow> bool" where
  "before_desc f x y =
     (case (snd x f, snd y f) of
        (Some a, Some b) \<Rightarrow> fval_less b a \<or> (\<not> fval_less a b \<and> fst y < fst x)
      | _ \<Rightarrow> False)"

fun insert_desc :: "string \<Rightarrow> ref \<times> doc \<Rightarrow> collection \<Rightarrow> collection" where
  "insert_desc f x [] = [x]"
| "insert_desc f x (y # ys) = (if before_desc f y x then y # insert_desc f x ys else x # y # ys)"

fun orderBy_desc :: "string \<Rightarrow> collection \<Rightarrow> collection" where
  "orderBy_desc f [] = []"
| "orderBy_desc f (x # xs) = insert_desc f x (orderBy_desc f xs)"

subsection \<open>Live location operations\<close>

text \<open>
  A call of \<^verbatim>\<open>doc\<close> that throws rejects the promise of the \<^verbatim>\<open>async\<close> method before
  anything is written.
\<close>

definition updateLiveLocation :: "LiveLocation \<Rightarrow> collection \<Rightarrow> (store_error + unit) \<times> collection" where
  "updateLiveLocation locationData c =
     (case docRef (driverId locationData) of
        None \<Rightarrow> (Inl InvalidArgument, c)
      | Some locationRef \<Rightarrow> (Inr (), setDoc_merge locationRef (docFields locationData) c))"

text \<open>\<open>now\<close> is the reading of \<^verbatim>\<open>Date.now()\<close>.\<close>

definition stopLiveLocation :: "string \<Rightarrow> int \<Rightarrow> collection \<Rightarrow> (store_error + unit) \<times> collection" where
  "stopLiveLocation driverId' now c =
     (case docRef driverId' of
        None \<Rightarrow> (Inl InvalidArgument, c)
      | Some locationRef \<Rightarrow>
          updateDoc locationRef
            [''isActive'' \<mapsto> FBool False, ''stoppedAt'' \<mapsto> FNum (Num (of_int now))] c)"

text \<open>
  The query of \<^verbatim>\<open>subscribeToLiveLocation\<close> and the argument its snapshot listener
  passes to \<open>callback\<close> for a state of the collection: \<open>None\<close> is \<^verbatim>\<open>null\<close>.
\<close>

definition liveLocationQuery :: "string \<Rightarrow> collection \<Rightarrow> collection" where
  "liveLocationQuery busNumber' c =
     take 1 (orderBy_desc ''timestamp''
       (filter (\<lambda>kd. in_liveLocations kd \<and>
                     where_eq ''busNumber'' (FStr busNumber') kd \<and>
                     where_eq ''isActive'' (FBool True) kd \<and>
                     has_field ''timestamp'' kd) c))"

definition subscribeToLiveLocation :: "string \<Rightarrow> collection \<Rightarrow> doc option" where
  "subscribeToLiveLocation busNumber' c =
     (case liveLocationQuery busNumber' c of
        [] \<Rightarrow> None
      | kd # _ \<Rightarrow> Some (snd kd))"

subsection \<open>Sequences of writes\<close>

datatype store_op = Publish LiveLocation | Deactivate string int

fun apply_op :: "store_op \<Rightarrow> collection \<Rightarrow> collection" where
  "apply_op (Publish l) c = snd (updateLiveLocation l c)"
| "apply_op (Deactivate k now) c = snd (stopLiveLocation k now c)"

definition run :: "store_op list \<Rightarrow> collection \<Rightarrow> collection" where
  "run ops c = fold apply_op ops c"

text \<open>
  The records that are active: under a reference, with a given \<^verbatim>\<open>driverId\<close> field,
  and, among the documents of \<^verbatim>\<open>liveLocations\<close>, with a given \<^verbatim>\<open>busNumber\<close>.
\<close>

definition active_at :: "ref \<Rightarrow> collection \<Rightarrow> collection" where
  "active_at r c = filter (\<lambda>kd. fst kd = r \<and> snd kd ''isActive'' = Some (FBool True)) c"

definition active_of_driver :: "string \<Rightarrow> collection \<Rightarrow> collection" where
  "active_of_driver k c =
     filter (\<lambda>kd. snd kd ''driverId'' = Some (FStr k) \<and> snd kd ''isActive'' = Some (FBool True)) c"

definition active_of_bus :: "string \<Rightarrow> collection \<Rightarrow> collection" where
  "active_of_bus b c =
     filter (\<lambda>kd. in_liveLocations kd \<and> snd kd ''busNumber'' = Some (FStr b) \<and>
                   snd kd ''isActive'' = Some (FBool True)) c"

subsection \<open>The invariant of the store\<close>

text \<open>
  No two documents share a reference, the \<^verbatim>\<open>driverId\<close> field of each document names
  its reference, and each document has a \<^verbatim>\<open>timestamp\<close>.
\<close>

definition names_ref :: "ref \<times> doc \<Rightarrow> bool" where
  "names_ref kd =
     (case snd kd ''driverId'' of
        Some (FStr k) \<Rightarrow> docRef k = Some (fst kd)
      | _ \<Rightarrow> False)"

definition well_formed :: "collection \<Rightarrow> bool" where
  "well_formed c =
     (distinct (map fst c) \<and> (\<forall>kd \<in> set c. names_ref kd \<and> snd kd ''timestamp'' \<noteq> None))"

subsection \<open>Sample records\<close>

text \<open>Two drivers who serve the same bus.\<close>

definition driver1 :: LiveLocation where
  "driver1 = \<lparr>latitude = 11.0168, longitude = 76.9558, speed = Num 30, timestamp = 1000, accuracy = 5,
              driverId = ''d1'', busNumber = ''B1'', isActive = True\<rparr>"

definition driver2 :: LiveLocation where
  "driver2 = \<lparr>latitude = 11.0045, longitude = 76.9612, speed = Num 20, timestamp = 2000, accuracy = 5,
              driverId = ''d2'', busNumber = ''B1'', isActive = True\<rparr>"

section \<open>Driver dashboard: the tracking session\<close>

text \<open>
  The embedding follows the component \<^verbatim>\<open>DriverDashboard\<close>: its React state is a
  record, a handler maps the state it was rendered with to the state after its
  \<^verbatim>\<open>set...\<close> calls. A handler runs as one step; two handlers interleaving at an
  \<^verbatim>\<open>await\<close> are outside this model.
\<close>

datatype permission = granted | denied | prompt

record location =
  lat :: real
  lng :: real
  loc_timestamp :: int
  loc_speed :: real
  heading :: real

text \<open>The state variables; \<^verbatim>\<open>watchId\<close> is \<open>dash_watchId\<close> here, the service has its own.\<close>

record DriverDashboard =
  isTracking :: bool
  currentLocation :: "location option"
  locationError :: string
  dash_watchId :: "nat option"
  tripStartTime :: "int option"
  passengerCount :: nat
  locationPermission :: permission

definition newDriverDashboard :: DriverDashboard where
  "newDriverDashboard =
     \<lparr>isTracking = False, currentLocation = None, locationError = [], dash_watchId = None,
      tripStartTime = None, passengerCount = 0, locationPermission = prompt\<rparr>"

text \<open>The object built from a position at lines 44 to 50, 70 to 76 and 83 to 89.\<close>

definition toLocation :: "GeolocationCoordinates \<Rightarrow> int \<Rightarrow> location" where
  "toLocation coords now =
     \<lparr>lat = coords_latitude coords, lng = coords_longitude coords, loc_timestamp = now,
      loc_speed = (case coords_speed coords of
                     None \<Rightarrow> 0
                   | Some v \<Rightarrow> if v = 0 then 0 else fl (v * fl 3.6)),
      heading = number_or_0 (coords_heading coords)\<rparr>"

text \<open>
  Modelled from the spec: the functions \<^verbatim>\<open>getCurrentLocation\<close> of
  \<^verbatim>\<open>services/locationService\<close> and \<^verbatim>\<open>updateDriverStatus\<close> of
  \<^verbatim>\<open>services/firebaseService\<close>, which the dashboard imports and awaits, are not
  among the sources. A one-shot fetch answers with a position or fails with a message,
  a status update succeeds or fails with a message; the answers, and the readings of the
  clock, are inputs of the handler.
\<close>

record start_inputs =
  permission_fix :: geo_reply
  initial_fix :: geo_reply
  status_failure :: "string option"
  now_permission :: int
  now_initial :: int
  now_trip :: int

text \<open>
  Modelled from the spec: the function \<^verbatim>\<open>watchPosition\<close> that the dashboard imports
  from \<^verbatim>\<open>services/locationService\<close> is not among the sources. Starting a watch
  registers it with the provider and returns the handle that cancels it, which the
  dashboard later passes to \<^verbatim>\<open>navigator.geolocation.clearWatch\<close>. The callback given
  to it publishes each fix by \<^verbatim>\<open>startLocationTracking\<close>, so every registered watch
  is a stream of publishes.
\<close>

definition startWatch :: "Geolocation \<Rightarrow> nat \<times> Geolocation" where
  "startWatch g = watchPosition g"

definition requestLocationPermission :: "geo_reply \<Rightarrow> int \<Rightarrow> DriverDashboard \<Rightarrow> DriverDashboard" where
  "requestLocationPermission reply now st =
     (case reply of
        Position coords \<Rightarrow>
          st\<lparr>currentLocation := Some (toLocation coords now), locationPermission := granted,
             locationError := []\<rparr>
      | PositionError e \<Rightarrow> st\<lparr>locationError := e, locationPermission := denied\<rparr>)"

definition startTracking ::
  "start_inputs \<Rightarrow> DriverDashboard \<times> Geolocation \<Rightarrow> DriverDashboard \<times> Geolocation" where
  "startTracking i sg =
     (case sg of (st, g) \<Rightarrow>
        let st1 = st\<lparr>locationError := []\<rparr>;
            st2 = (if locationPermission st \<noteq> granted
                   then requestLocationPermission (permission_fix i) (now_permission i) st1
                   else st1)
        in (case initial_fix i of
             PositionError e \<Rightarrow> (st2\<lparr>locationError := e\<rparr>, g)
           | Position coords \<Rightarrow>
               let st3 = st2\<lparr>currentLocation := Some (toLocation coords (now_initial i))\<rparr>;
                   (w, g') = startWatch g;
                   st4 = st3\<lparr>dash_watchId := Some w, isTracking := True,
                             tripStartTime := Some (now_trip i)\<rparr>
               in (case status_failure i of
                     None \<Rightarrow> (st4, g')
                   | Some e \<Rightarrow> (st4\<lparr>locationError := e\<rparr>, g'))))"

text \<open>A failure of the two awaited calls of \<^verbatim>\<open>stopTracking\<close> is only logged.\<close>

definition stopTracking :: "DriverDashboard \<times> Geolocation \<Rightarrow> DriverDashboard \<times> Geolocation" where
  "stopTracking sg =
     (case sg of (st, g) \<Rightarrow>
        (st\<lparr>dash_watchId := None, isTracking := False, tripStartTime := None\<rparr>,
         case dash_watchId st of Some w \<Rightarrow> clearWatch w g | None \<Rightarrow> g))"

text \<open>The button of the trip controls (lines 290 to 307) and a click on it.\<close>

datatype control = StartButton bool | StopButton

definition trackingControl :: "DriverDashboard \<Rightarrow> control" where
  "trackingControl st =
     (if \<not> isTracking st then StartButton (locationPermission st = denied) else StopButton)"

definition clickTrackingControl ::
  "start_inputs \<Rightarrow> DriverDashboard \<times> Geolocation \<Rightarrow> DriverDashboard \<times> Geolocation" where
  "clickTrackingControl i sg =
     (case trackingControl (fst sg) of
        StartButton disabled \<Rightarrow> if disabled then sg else startTracking i sg
      | StopButton \<Rightarrow> stopTracking sg)"


text \<open>A start whose fetches succeed and whose status update is accepted.\<close>

definition successful_start :: start_inputs where
  "successful_start =
     \<lparr>permission_fix = Position gandhipuram, initial_fix = Position gandhipuram,
      status_failure = None, now_permission = 1000, now_initial = 1000, now_trip = 1000\<rparr>"

definition no_watches :: Geolocation where
  "no_watches = \<lparr>watches = [], nextWatch = 0\<rparr>"

section \<open>Properties of the arithmetic\<close>

lemma fl_0: "fl 0 = 0"
  by (simp add: fl_def)

lemma round_even_bounds: "\<lfloor>y\<rfloor> \<le> round_even y \<and> round_even y \<le> \<lfloor>y\<rfloor> + 1"
  by (simp add: round_even_def Let_def)

lemma round_even_near:
  assumes "\<bar>y - of_int m\<bar> < 1 / 2"
  shows "round_even y = m"
proof -
  from assms have lo: "of_int m - 1 / 2 < y" and hi: "y < of_int m + 1 / 2" by linarith+
  consider "y < of_int m" | "of_int m \<le> y" by linarith
  then show ?thesis
  proof cases
    case 1
    with lo have "\<lfloor>y\<rfloor> = m - 1" by (intro floor_unique) auto
    moreover with lo have "1 / 2 < y - of_int \<lfloor>y\<rfloor>" by simp
    ultimately show ?thesis using lo by (simp add: round_even_def Let_def)
  next
    case 2
    with hi have "\<lfloor>y\<rfloor> = m" by (intro floor_unique) auto
    moreover with hi have "y - of_int \<lfloor>y\<rfloor> < 1 / 2" by simp
    ultimately show ?thesis by (simp add: round_even_def Let_def)
  qed
qed

lemma fl_exponent:
  assumes "2 powr of_int (k + 52) \<le> \<bar>x\<bar>" "\<bar>x\<bar> < 2 powr of_int (k + 53)"
  shows "\<lfloor>log 2 \<bar>x\<bar>\<rfloor> - 52 = k"
proof -
  have pos: "0 < \<bar>x\<bar>" using assms(1) by (smt (verit) powr_gt_zero)
  have "\<lfloor>log 2 \<bar>x\<bar>\<rfloor> = k + 52"
    using assms floor_log_eq_powr_iff [of "\<bar>x\<bar>" 2 "k + 52"] pos
    by (simp add: add.commute add.left_commute)
  then show ?thesis by simp
qed

text \<open>
  How a rounding is evaluated: \<open>x\<close> lies in the binade of exponent \<open>k + 52\<close>, and \<open>m\<close> is
  the integer within less than a half of \<open>x / 2\<^sup>k\<close>.
\<close>

lemma fl_eqI:
  assumes "2 powr of_int (k + 52) \<le> \<bar>x\<bar>" "\<bar>x\<bar> < 2 powr of_int (k + 53)"
    and "\<bar>x / 2 powr of_int k - of_int m\<bar> < 1 / 2"
  shows "fl x = of_int m * 2 powr of_int k"
proof -
  have "x \<noteq> 0" using assms(1) by (smt (verit) powr_gt_zero)
  moreover have "\<lfloor>log 2 \<bar>x\<bar>\<rfloor> - 52 = k" using assms(1,2) by (rule fl_exponent)
  moreover have "round_even (x / 2 powr of_int k) = m" using assms(3) by (rule round_even_near)
  ultimately show ?thesis by (simp add: fl_def Let_def)
qed

lemma fl_pos: assumes "0 < x" shows "0 < fl x"
proof -
  define k where "k = \<lfloor>log 2 \<bar>x\<bar>\<rfloor> - 52"
  have "\<lfloor>log 2 \<bar>x\<bar>\<rfloor> = k + 52" by (simp add: k_def)
  then have "2 powr of_int (k + 52) \<le> \<bar>x\<bar>"
    using floor_log_eq_powr_iff [of "\<bar>x\<bar>" 2 "k + 52"] assms by simp
  then have "2 powr 52 * 2 powr of_int k \<le> x"
    using assms by (simp add: powr_add mult.commute)
  then have "2 powr 52 \<le> x / 2 powr of_int k"
    by (simp add: pos_le_divide_eq)
  then have "(4503599627370496::real) \<le> x / 2 powr of_int k" by simp
  then have "1 \<le> x / 2 powr of_int k" by linarith
  then have "1 \<le> \<lfloor>x / 2 powr of_int k\<rfloor>" by linarith
  then have "1 \<le> round_even (x / 2 powr of_int k)"
    using round_even_bounds [of "x / 2 powr of_int k"] by linarith
  then have "0 < real_of_int (round_even (x / 2 powr of_int k)) * 2 powr real_of_int k"
    by (simp add: zero_less_mult_iff)
  with assms show ?thesis by (simp add: fl_def Let_def k_def)
qed

lemma fl_neg: assumes "x < 0" shows "fl x < 0"
proof -
  define k where "k = \<lfloor>log 2 \<bar>x\<bar>\<rfloor> - 52"
  have "\<lfloor>log 2 \<bar>x\<bar>\<rfloor> = k + 52" by (simp add: k_def)
  then have "2 powr of_int (k + 52) \<le> \<bar>x\<bar>"
    using floor_log_eq_powr_iff [of "\<bar>x\<bar>" 2 "k + 52"] assms by simp
  then have "2 powr 52 * 2 powr of_int k \<le> - x"
    using assms by (simp add: powr_add mult.commute)
  then have "2 powr 52 \<le> (- x) / 2 powr of_int k"
    by (simp only: pos_le_divide_eq powr_gt_zero)
  then have "(4503599627370496::real) \<le> (- x) / 2 powr of_int k" by simp
  then have "2 \<le> - (x / 2 powr of_int k)" by simp
  then have "\<lfloor>x / 2 powr of_int k\<rfloor> + 1 < 0" by linarith
  then have "round_even (x / 2 powr of_int k) < 0"
    using round_even_bounds [of "x / 2 powr of_int k"] by linarith
  then have "real_of_int (round_even (x / 2 powr of_int k)) * 2 powr real_of_int k < 0"
    by (simp add: mult_less_0_iff)
  with assms show ?thesis by (simp add: fl_def Let_def k_def)
qed

lemma fl_pos_iff: "0 < fl x \<longleftrightarrow> 0 < x"
proof
  assume "0 < x" then show "0 < fl x" by (rule fl_pos)
next
  assume p: "0 < fl x"
  show "0 < x"
  proof (rule ccontr)
    assume "\<not> 0 < x"
    then consider "x = 0" | "x < 0" by linarith
    then show False
    proof cases
      case 1 with p show False by (simp add: fl_0)
    next
      case 2 then have "fl x < 0" by (rule fl_neg) with p show False by simp
    qed
  qed
qed

lemma round1_0: "round1 (Num 0) = Num 0"
  by (simp add: round1_def fl_0)

text \<open>A quarter is a double; the double nearest to three tenths is not three tenths.\<close>

lemma fl_5_2: "fl (5 / 2) = 5 / 2"
proof -
  have "fl (5 / 2) = of_int 5629499534213120 * 2 powr of_int (- 51)"
    by (rule fl_eqI) (simp_all add: powr_neg_numeral)
  then show ?thesis by (simp add: powr_neg_numeral)
qed

lemma fl_3_10: "fl (3 / 10) = 5404319552844595 / 2 ^ 54"
proof -
  have "fl (3 / 10) = of_int 5404319552844595 * 2 powr of_int (- 54)"
    by (rule fl_eqI) (simp_all add: powr_neg_numeral)
  then show ?thesis by (simp add: powr_neg_numeral)
qed

section \<open>Properties of the location service\<close>

lemma timeDiff_positive:
  "js_gt (fdiv (fsub (Num (of_int now)) (Num (of_int pts))) (Num 1000)) (Num 0) \<longleftrightarrow> pts < now"
proof -
  have "0 < fl (fl (of_int now - of_int pts) / 1000) \<longleftrightarrow> 0 < fl (real_of_int now - of_int pts) / 1000"
    by (rule fl_pos_iff)
  also have "\<dots> \<longleftrightarrow> 0 < fl (real_of_int now - of_int pts)" by simp
  also have "\<dots> \<longleftrightarrow> 0 < real_of_int now - of_int pts" by (rule fl_pos_iff)
  also have "\<dots> \<longleftrightarrow> pts < now" by simp
  finally show ?thesis by simp
qed

lemma calculateSpeed_seed:
  "previousLocation svc = None \<or> previousTimestamp svc = None \<or> previousTimestamp svc = Some 0 \<Longrightarrow>
   calculateSpeed e svc coords now1 now2 =
     (Num (number_or_0 (coords_speed coords)),
      svc\<lparr>previousLocation := Some coords, previousTimestamp := Some now1\<rparr>)"
  by (auto simp: calculateSpeed_def split: option.splits)

lemma calculateSpeed_derive:
  "previousLocation svc = Some prev \<Longrightarrow> previousTimestamp svc = Some pts \<Longrightarrow> pts \<noteq> 0 \<Longrightarrow>
   calculateSpeed e svc coords now1 now2 =
     (round1 (kmh e prev pts coords now1),
      svc\<lparr>previousLocation := Some coords, previousTimestamp := Some now2\<rparr>)"
  by (simp add: calculateSpeed_def Let_def round1_def kmh_def timeDiff_positive
      del: fadd.simps fsub.simps fmul.simps fdiv.simps js_gt.simps Math_round.simps)

text \<open>
  C8: \<^verbatim>\<open>stopWatching\<close> cancels the watch the service holds and discards the previous
  location and timestamp; a second call, or a call on a service without a watch, changes
  nothing. The function has no failing branch, and after it the cancelled watch is not
  registered with the provider, so no fix is delivered to it.
\<close>

theorem stopWatching_idempotent_C8:
  "stopWatching (stopWatching (svc, g)) = stopWatching (svc, g) \<and>
   (watchId svc = None \<longrightarrow> stopWatching (svc, g) = (svc, g)) \<and>
   (\<forall>w. watchId svc = Some w \<longrightarrow>
      stopWatching (svc, g) =
        (svc\<lparr>watchId := None, previousLocation := None, previousTimestamp := None\<rparr>, clearWatch w g) \<and>
      w \<notin> set (watches (snd (stopWatching (svc, g)))))"
  by (cases "watchId svc") (simp_all add: stopWatching_def clearWatch_def)


theorem stopWatching_idempotent_C8_witness:
  "stopWatching (stopWatching
      (\<lparr>watchId = Some 0, previousLocation = Some gandhipuram, previousTimestamp = Some 1000\<rparr>,
       \<lparr>watches = [0], nextWatch = 1\<rparr>)) =
     (newLocationService, \<lparr>watches = [], nextWatch = 1\<rparr>) \<and>
   stopWatching (newLocationService, \<lparr>watches = [], nextWatch = 1\<rparr>) =
     (newLocationService, \<lparr>watches = [], nextWatch = 1\<rparr>)"
  using stopWatching_idempotent_C8
          [of "\<lparr>watchId = Some 0, previousLocation = Some gandhipuram, previousTimestamp = Some 1000\<rparr>"
              "\<lparr>watches = [0], nextWatch = 1\<rparr>"]
        stopWatching_idempotent_C8 [of newLocationService "\<lparr>watches = [], nextWatch = 1\<rparr>"]
  by (simp add: newLocationService_def clearWatch_def)

text \<open>
  C3, as the specification states it, fails: in the seeding branch the provider's speed
  is returned as it is, not rounded to one decimal place. With a fresh service and a
  provider speed of \<open>0.25\<close> the code returns \<open>0.25\<close>, the reference the double nearest
  to \<open>0.3\<close>.
\<close>

theorem calculateSpeed_unrounded_seed_C3:
  "fst (calculateSpeed sample_engine newLocationService gandhipuram 1000 1000) = Num (1 / 4) \<and>
   fst (deriveSpeedKmh sample_engine newLocationService gandhipuram 1000) =
     Num (5404319552844595 / 2 ^ 54) \<and>
   calculateSpeed sample_engine newLocationService gandhipuram 1000 1000 \<noteq>
   deriveSpeedKmh sample_engine newLocationService gandhipuram 1000"
proof -
  have a: "fst (calculateSpeed sample_engine newLocationService gandhipuram 1000 1000) = Num (1 / 4)"
    by (simp add: calculateSpeed_def newLocationService_def gandhipuram_def number_or_0_def)
  have "round1 (Num (1 / 4)) = Num (5404319552844595 / 2 ^ 54)"
    by (simp add: round1_def fl_5_2 fl_3_10)
  then have b: "fst (deriveSpeedKmh sample_engine newLocationService gandhipuram 1000) =
     Num (5404319552844595 / 2 ^ 54)"
    by (simp add: deriveSpeedKmh_def newLocationService_def gandhipuram_def number_or_0_def)
  have "Num (1 / 4) \<noteq> Num (5404319552844595 / 2 ^ 54)" by simp
  with a b show ?thesis by metis
qed

text \<open>
  C3, amended: without a previous coordinate \<^verbatim>\<open>calculateSpeed\<close> returns the provider's
  speed, or \<open>0\<close> for \<^verbatim>\<open>null\<close>, as it is, and seeds the state. With a previous coordinate
  and timestamp it returns distance over elapsed seconds times \<open>3.6\<close>, rounded to one
  decimal place, when time has elapsed, and exactly \<open>0\<close>, which is neither negative nor
  NaN, when it has not. In both branches the state advances to the new coordinate and
  to the clock reading taken when it is stored. The states are those the service
  holds: no previous coordinate, or a previous coordinate with the clock reading stored
  with it, which is not \<open>0\<close>.
\<close>

theorem calculateSpeed_branches_C3:
  "(previousLocation svc = None \<longrightarrow>
      calculateSpeed e svc coords now1 now2 =
        (Num (number_or_0 (coords_speed coords)),
         svc\<lparr>previousLocation := Some coords, previousTimestamp := Some now1\<rparr>)) \<and>
   (\<forall>prev pts. previousLocation svc = Some prev \<and> previousTimestamp svc = Some pts \<and> pts \<noteq> 0 \<longrightarrow>
      calculateSpeed e svc coords now1 now2 =
        (round1 (if pts < now1
                 then fmul (fdiv (calculateDistance e (coords_latitude prev) (coords_longitude prev)
                                    (coords_latitude coords) (coords_longitude coords))
                              (fdiv (fsub (Num (of_int now1)) (Num (of_int pts))) (Num 1000)))
                        (Num (fl 3.6))
                 else Num 0),
         svc\<lparr>previousLocation := Some coords, previousTimestamp := Some now2\<rparr>) \<and>
      (now1 \<le> pts \<longrightarrow> fst (calculateSpeed e svc coords now1 now2) = Num 0))"
proof (intro conjI allI impI)
  assume "previousLocation svc = None"
  then show "calculateSpeed e svc coords now1 now2 =
        (Num (number_or_0 (coords_speed coords)),
         svc\<lparr>previousLocation := Some coords, previousTimestamp := Some now1\<rparr>)"
    by (simp add: calculateSpeed_seed)
next
  fix prev pts
  assume h: "previousLocation svc = Some prev \<and> previousTimestamp svc = Some pts \<and> pts \<noteq> 0"
  then have eq: "calculateSpeed e svc coords now1 now2 =
     (round1 (kmh e prev pts coords now1),
      svc\<lparr>previousLocation := Some coords, previousTimestamp := Some now2\<rparr>)"
    by (simp add: calculateSpeed_derive)
  show "calculateSpeed e svc coords now1 now2 =
        (round1 (if pts < now1
                 then fmul (fdiv (calculateDistance e (coords_latitude prev) (coords_longitude prev)
                                    (coords_latitude coords) (coords_longitude coords))
                              (fdiv (fsub (Num (of_int now1)) (Num (of_int pts))) (Num 1000)))
                        (Num (fl 3.6))
                 else Num 0),
         svc\<lparr>previousLocation := Some coords, previousTimestamp := Some now2\<rparr>)"
    using eq by (simp only: kmh_def)
  assume "now1 \<le> pts"
  then show "fst (calculateSpeed e svc coords now1 now2) = Num 0"
    by (simp add: eq kmh_def round1_0)
qed

theorem calculateSpeed_branches_C3_witness:
  "calculateSpeed sample_engine newLocationService gandhipuram 1000 1000 =
     (Num (1 / 4),
      \<lparr>watchId = None, previousLocation = Some gandhipuram, previousTimestamp = Some 1000\<rparr>) \<and>
   calculateSpeed sample_engine
     \<lparr>watchId = None, previousLocation = Some gandhipuram, previousTimestamp = Some 5000\<rparr>
     rsPuram 4000 4001 =
     (Num 0, \<lparr>watchId = None, previousLocation = Some rsPuram, previousTimestamp = Some 4001\<rparr>)"
  using calculateSpeed_branches_C3 [of newLocationService sample_engine gandhipuram 1000 1000]
        calculateSpeed_branches_C3
          [of "\<lparr>watchId = None, previousLocation = Some gandhipuram, previousTimestamp = Some 5000\<rparr>"
              sample_engine rsPuram 4000 4001]
  by (simp add: newLocationService_def gandhipuram_def number_or_0_def round1_0)

text \<open>
  C9: a successful one-shot fetch runs the same computation on the same state as a fix
  of the watch, and leaves its coordinate and clock reading in the service; the speed of
  the next sample, by the watch or by another one-shot fetch, is derived from them.
\<close>

theorem one_shot_shares_state_C9:
  "getCurrentPosition e True (Position coords) now1 now2 now3 svc =
     (case watchTick e coords now1 now2 now3 svc of (d, svc') \<Rightarrow> (Inr d, svc')) \<and>
   previousLocation (snd (getCurrentPosition e True (Position coords) now1 now2 now3 svc)) = Some coords \<and>
   (previousTimestamp (snd (getCurrentPosition e True (Position coords) now1 now2 now3 svc)) = Some now1 \<or>
    previousTimestamp (snd (getCurrentPosition e True (Position coords) now1 now2 now3 svc)) = Some now2) \<and>
   (\<forall>t. previousTimestamp (snd (getCurrentPosition e True (Position coords) now1 now2 now3 svc)) = Some t \<and>
        t \<noteq> 0 \<longrightarrow>
      speed (fst (watchTick e coords' t1 t2 t3
                    (snd (getCurrentPosition e True (Position coords) now1 now2 now3 svc)))) =
        round1 (if t < t1
                then fmul (fdiv (calculateDistance e (coords_latitude coords) (coords_longitude coords)
                                   (coords_latitude coords') (coords_longitude coords'))
                             (fdiv (fsub (Num (of_int t1)) (Num (of_int t))) (Num 1000)))
                       (Num (fl 3.6))
                else Num 0) \<and>
      map_sum id speed (fst (getCurrentPosition e True (Position coords') t1 t2 t3
                    (snd (getCurrentPosition e True (Position coords) now1 now2 now3 svc)))) =
        Inr (round1 (if t < t1
                then fmul (fdiv (calculateDistance e (coords_latitude coords) (coords_longitude coords)
                                   (coords_latitude coords') (coords_longitude coords'))
                             (fdiv (fsub (Num (of_int t1)) (Num (of_int t))) (Num 1000)))
                       (Num (fl 3.6))
                else Num 0)))"
proof -
  define svc' where "svc' = snd (calculateSpeed e svc coords now1 now2)"
  have s: "snd (getCurrentPosition e True (Position coords) now1 now2 now3 svc) = svc'"
    by (simp add: getCurrentPosition_def svc'_def split: prod.splits)
  have pl: "previousLocation svc' = Some coords"
    unfolding svc'_def by (auto simp: calculateSpeed_def Let_def split: option.splits)
  have pt: "previousTimestamp svc' = Some now1 \<or> previousTimestamp svc' = Some now2"
    unfolding svc'_def by (auto simp: calculateSpeed_def Let_def split: option.splits)
  have a: "getCurrentPosition e True (Position coords) now1 now2 now3 svc =
     (case watchTick e coords now1 now2 now3 svc of (d, svc') \<Rightarrow> (Inr d, svc'))"
    by (simp add: getCurrentPosition_def watchTick_def Let_def split: prod.splits)
  have n: "speed (fst (watchTick e coords' t1 t2 t3 svc')) = round1 (kmh e coords t coords' t1) \<and>
           map_sum id speed (fst (getCurrentPosition e True (Position coords') t1 t2 t3 svc')) =
             Inr (round1 (kmh e coords t coords' t1))"
    if "previousTimestamp svc' = Some t \<and> t \<noteq> 0" for t
    using that pl
    by (simp add: watchTick_def getCurrentPosition_def calculateSpeed_derive [of svc' coords t])
  show ?thesis
    unfolding s using a pl pt n
    by (simp add: s kmh_def del: fadd.simps fsub.simps fmul.simps fdiv.simps)
qed

theorem one_shot_shares_state_C9_witness:
  "speed (fst (watchTick sample_engine rsPuram 4000 4000 4000
                 (snd (getCurrentPosition sample_engine True (Position gandhipuram) 1000 1000 1000
                         newLocationService)))) =
     round1 (fmul (fdiv (calculateDistance sample_engine
                           (coords_latitude gandhipuram) (coords_longitude gandhipuram)
                           (coords_latitude rsPuram) (coords_longitude rsPuram))
                     (fdiv (fsub (Num 4000) (Num 1000)) (Num 1000)))
               (Num (fl 3.6)))"
proof -
  have h: "previousTimestamp
             (snd (getCurrentPosition sample_engine True (Position gandhipuram) 1000 1000 1000
                     newLocationService)) =
           Some 1000 \<and> (1000::int) \<noteq> 0"
    by (simp add: getCurrentPosition_def calculateSpeed_def newLocationService_def)
  have "speed (fst (watchTick sample_engine rsPuram 4000 4000 4000
                 (snd (getCurrentPosition sample_engine True (Position gandhipuram) 1000 1000 1000
                         newLocationService)))) =
        round1 (if (1000::int) < 4000
                then fmul (fdiv (calculateDistance sample_engine
                                   (coords_latitude gandhipuram) (coords_longitude gandhipuram)
                                   (coords_latitude rsPuram) (coords_longitude rsPuram))
                             (fdiv (fsub (Num (of_int 4000)) (Num (of_int 1000))) (Num 1000)))
                       (Num (fl 3.6))
                else Num 0)"
    using one_shot_shares_state_C9
            [of sample_engine gandhipuram 1000 1000 1000 newLocationService rsPuram 4000 4000 4000] h
    by blast
  then show ?thesis by (simp del: fadd.simps fsub.simps fmul.simps fdiv.simps)
qed

text \<open>
  C7: at the near-antipodal pair \<open>(8, 0)\<close>, \<open>(-8, 180)\<close> the haversine term is
  \<open>sin\<^sup>2 8\<degree> + cos\<^sup>2 8\<degree>\<close>. With the sine and cosine in double precision the two
  rounded squares sum to \<open>1 + 2\<^sup>-\<^sup>5\<^sup>2\<close>, so \<^verbatim>\<open>Math.sqrt(1 - a)\<close> is the square root of
  a negative number and the distance is NaN: not \<open>0\<close> or more, and equal to nothing,
  its mirror image included.
\<close>

theorem calculateDistance_antipodal_NaN_C7:
  assumes sin1: "lib_sin e (- (5030569068109113 / 2 ^ 55)) = - (5014239404989977 / 2 ^ 55)"
    and sin2: "lib_sin e (884279719003555 / 2 ^ 49) = 1"
    and cos1: "lib_cos e (5030569068109113 / 2 ^ 55) = 4459770905381437 / 2 ^ 52"
    and cos2: "lib_cos e (- (5030569068109113 / 2 ^ 55)) = 4459770905381437 / 2 ^ 52"
  shows "calculateDistance e 8 0 (- 8) 180 = NaN"
proof -
  have p1: "fmul (Num 8) (Num Math_PI) = Num (884279719003555 / 2 ^ 45)"
  proof -
    have "fl (8 * Math_PI) = of_int 7074237752028440 * 2 powr of_int (- 48)"
      by (rule fl_eqI) (simp_all add: Math_PI_def powr_neg_numeral)
    then show ?thesis by (simp add: Math_PI_def powr_neg_numeral)
  qed
  have phi1: "fdiv (Num (884279719003555 / 2 ^ 45)) (Num 180) = Num (5030569068109113 / 2 ^ 55)"
  proof -
    have "fl ((884279719003555 / 2 ^ 45) / 180) = of_int 5030569068109113 * 2 powr of_int (- 55)"
      by (rule fl_eqI) (simp_all add: Math_PI_def powr_neg_numeral)
    then show ?thesis by (simp add: Math_PI_def powr_neg_numeral)
  qed
  have p2: "fmul (Num (- 8)) (Num Math_PI) = Num (- (884279719003555 / 2 ^ 45))"
  proof -
    have "fl ((- 8) * Math_PI) = of_int (- 7074237752028440) * 2 powr of_int (- 48)"
      by (rule fl_eqI) (simp_all add: Math_PI_def powr_neg_numeral)
    then show ?thesis by (simp add: Math_PI_def powr_neg_numeral)
  qed
  have phi2: "fdiv (Num (- (884279719003555 / 2 ^ 45))) (Num 180) = Num (- (5030569068109113 / 2 ^ 55))"
  proof -
    have "fl ((- (884279719003555 / 2 ^ 45)) / 180) = of_int (- 5030569068109113) * 2 powr of_int (- 55)"
      by (rule fl_eqI) (simp_all add: Math_PI_def powr_neg_numeral)
    then show ?thesis by (simp add: Math_PI_def powr_neg_numeral)
  qed
  have d1: "fsub (Num (- 8)) (Num 8) = Num (- 16)"
  proof -
    have "fl ((- 8) - 8) = of_int (- 4503599627370496) * 2 powr of_int (- 48)"
      by (rule fl_eqI) (simp_all add: Math_PI_def powr_neg_numeral)
    then show ?thesis by (simp add: Math_PI_def powr_neg_numeral)
  qed
  have d2: "fmul (Num (- 16)) (Num Math_PI) = Num (- (884279719003555 / 2 ^ 44))"
  proof -
    have "fl ((- 16) * Math_PI) = of_int (- 7074237752028440) * 2 powr of_int (- 47)"
      by (rule fl_eqI) (simp_all add: Math_PI_def powr_neg_numeral)
    then show ?thesis by (simp add: Math_PI_def powr_neg_numeral)
  qed
  have dphi: "fdiv (Num (- (884279719003555 / 2 ^ 44))) (Num 180) = Num (- (5030569068109113 / 2 ^ 54))"
  proof -
    have "fl ((- (884279719003555 / 2 ^ 44)) / 180) = of_int (- 5030569068109113) * 2 powr of_int (- 54)"
      by (rule fl_eqI) (simp_all add: Math_PI_def powr_neg_numeral)
    then show ?thesis by (simp add: Math_PI_def powr_neg_numeral)
  qed
  have l1: "fsub (Num 180) (Num 0) = Num 180"
  proof -
    have "fl (180 - 0) = of_int 6333186975989760 * 2 powr of_int (- 45)"
      by (rule fl_eqI) (simp_all add: Math_PI_def powr_neg_numeral)
    then show ?thesis by (simp add: Math_PI_def powr_neg_numeral)
  qed
  have l2: "fmul (Num 180) (Num Math_PI) = Num (4974073419394997 / 2 ^ 43)"
  proof -
    have "fl (180 * Math_PI) = of_int 4974073419394997 * 2 powr of_int (- 43)"
      by (rule fl_eqI) (simp_all add: Math_PI_def powr_neg_numeral)
    then show ?thesis by (simp add: Math_PI_def powr_neg_numeral)
  qed
  have dlam: "fdiv (Num (4974073419394997 / 2 ^ 43)) (Num 180) = Num (884279719003555 / 2 ^ 48)"
  proof -
    have "fl ((4974073419394997 / 2 ^ 43) / 180) = of_int 7074237752028440 * 2 powr of_int (- 51)"
      by (rule fl_eqI) (simp_all add: Math_PI_def powr_neg_numeral)
    then show ?thesis by (simp add: Math_PI_def powr_neg_numeral)
  qed
  have hphi: "fdiv (Num (- (5030569068109113 / 2 ^ 54))) (Num 2) = Num (- (5030569068109113 / 2 ^ 55))"
  proof -
    have "fl ((- (5030569068109113 / 2 ^ 54)) / 2) = of_int (- 5030569068109113) * 2 powr of_int (- 55)"
      by (rule fl_eqI) (simp_all add: Math_PI_def powr_neg_numeral)
    then show ?thesis by (simp add: Math_PI_def powr_neg_numeral)
  qed
  have hlam: "fdiv (Num (884279719003555 / 2 ^ 48)) (Num 2) = Num (884279719003555 / 2 ^ 49)"
  proof -
    have "fl ((884279719003555 / 2 ^ 48) / 2) = of_int 7074237752028440 * 2 powr of_int (- 52)"
      by (rule fl_eqI) (simp_all add: Math_PI_def powr_neg_numeral)
    then show ?thesis by (simp add: Math_PI_def powr_neg_numeral)
  qed
  have ss: "fmul (Num (- (5014239404989977 / 2 ^ 55))) (Num (- (5014239404989977 / 2 ^ 55))) = Num (1395694493897217 / 2 ^ 56)"
  proof -
    have "fl ((- (5014239404989977 / 2 ^ 55)) * (- (5014239404989977 / 2 ^ 55))) = of_int 5582777975588868 * 2 powr of_int (- 58)"
      by (rule fl_eqI) (simp_all add: Math_PI_def powr_neg_numeral)
    then show ?thesis by (simp add: Math_PI_def powr_neg_numeral)
  qed
  have cc: "fmul (Num (4459770905381437 / 2 ^ 52)) (Num (4459770905381437 / 2 ^ 52)) = Num (8832737443003841 / 2 ^ 53)"
  proof -
    have "fl ((4459770905381437 / 2 ^ 52) * (4459770905381437 / 2 ^ 52)) = of_int 8832737443003841 * 2 powr of_int (- 53)"
      by (rule fl_eqI) (simp_all add: Math_PI_def powr_neg_numeral)
    then show ?thesis by (simp add: Math_PI_def powr_neg_numeral)
  qed
  have cc1: "fmul (Num (8832737443003841 / 2 ^ 53)) (Num 1) = Num (8832737443003841 / 2 ^ 53)"
  proof -
    have "fl ((8832737443003841 / 2 ^ 53) * 1) = of_int 8832737443003841 * 2 powr of_int (- 53)"
      by (rule fl_eqI) (simp_all add: Math_PI_def powr_neg_numeral)
    then show ?thesis by (simp add: Math_PI_def powr_neg_numeral)
  qed
  have aa: "fadd (Num (1395694493897217 / 2 ^ 56)) (Num (8832737443003841 / 2 ^ 53)) = Num (4503599627370497 / 2 ^ 52)"
  proof -
    have "fl ((1395694493897217 / 2 ^ 56) + (8832737443003841 / 2 ^ 53)) = of_int 4503599627370497 * 2 powr of_int (- 52)"
      by (rule fl_eqI) (simp_all add: Math_PI_def powr_neg_numeral)
    then show ?thesis by (simp add: Math_PI_def powr_neg_numeral)
  qed
  have om: "fsub (Num 1) (Num (4503599627370497 / 2 ^ 52)) = Num (- (1 / 2 ^ 52))"
  proof -
    have "fl (1 - (4503599627370497 / 2 ^ 52)) = of_int (- 4503599627370496) * 2 powr of_int (- 104)"
      by (rule fl_eqI) (simp_all add: Math_PI_def powr_neg_numeral)
    then show ?thesis by (simp add: Math_PI_def powr_neg_numeral)
  qed
  have s1: "Math_sin e (Num (- (5030569068109113 / 2 ^ 55))) = Num (- (5014239404989977 / 2 ^ 55))" using sin1 by simp
  have s2: "Math_sin e (Num (884279719003555 / 2 ^ 49)) = Num 1" using sin2 by simp
  have c1: "Math_cos e (Num (5030569068109113 / 2 ^ 55)) = Num (4459770905381437 / 2 ^ 52)" using cos1 by simp
  have c2: "Math_cos e (Num (- (5030569068109113 / 2 ^ 55))) = Num (4459770905381437 / 2 ^ 52)" using cos2 by simp
  have q1: "Math_sqrt e (Num (4503599627370497 / 2 ^ 52)) = Num (lib_sqrt e (4503599627370497 / 2 ^ 52))" by simp
  have q2: "Math_sqrt e (Num (- (1 / 2 ^ 52))) = NaN" by simp
  have t: "Math_atan2 e (Num (lib_sqrt e (4503599627370497 / 2 ^ 52))) NaN = NaN" by simp
  have n1: "fmul (Num 2) NaN = NaN" by simp
  have n2: "fmul (Num 6371000) NaN = NaN" by simp
  show ?thesis
    unfolding calculateDistance_def Let_def
    by (simp only: p1 phi1 p2 phi2 d1 d2 dphi l1 l2 dlam hphi hlam ss cc cc1 aa om s1 s2 c1 c2 q1 q2 t n1 n2)
qed

theorem calculateDistance_antipodal_NaN_C7_witness:
  "calculateDistance sample_engine 8 0 (- 8) 180 = NaN"
  using calculateDistance_antipodal_NaN_C7 [of sample_engine]
  by (simp add: sample_engine_def)

section \<open>Properties of the collection \<^verbatim>\<open>liveLocations\<close>\<close>

lemma map_fst_setDoc_merge:
  "map fst (setDoc_merge r data c) = (if r \<in> fst ` set c then map fst c else map fst c @ [r])"
  by (induction c) force+

lemma getDoc_setDoc_merge:
  "getDoc r' (setDoc_merge r data c) =
     (if r' = r then Some ((case getDoc r c of None \<Rightarrow> Map.empty | Some d \<Rightarrow> d) ++ data)
      else getDoc r' c)"
  by (induction c) (auto simp: getDoc_def)

lemma getDoc_None_iff: "getDoc r c = None \<longleftrightarrow> r \<notin> fst ` set c"
  by (simp add: getDoc_def map_of_eq_None_iff)

lemma merge_same: "data ++ data = data" for data :: doc
  by (rule ext) (simp add: map_add_def split: option.splits)

lemma merge_twice: "(d ++ data) ++ data = d ++ data" for data :: doc
  by (rule ext) (simp add: map_add_def split: option.splits)

lemma setDoc_merge_idem: "setDoc_merge r data (setDoc_merge r data c) = setDoc_merge r data c"
  by (induction c) (auto simp: merge_same merge_twice)

lemma distinct_setDoc_merge:
  "distinct (map fst c) \<Longrightarrow> distinct (map fst (setDoc_merge r data c))"
  by (simp add: map_fst_setDoc_merge)

lemma mem_iff_getDoc: "distinct (map fst c) \<Longrightarrow> (r, d) \<in> set c \<longleftrightarrow> getDoc r c = Some d"
  by (simp add: getDoc_def)

lemma docFields_simps:
  "docFields l ''driverId'' = Some (FStr (driverId l))"
  "docFields l ''busNumber'' = Some (FStr (busNumber l))"
  "docFields l ''timestamp'' = Some (FNum (Num (of_int (timestamp l))))"
  "docFields l ''isActive'' = Some (FBool (isActive l))"
  "docFields l ''stoppedAt'' = None"
  by (simp_all add: docFields_def)

lemma stop_fields_simps:
  "[''isActive'' \<mapsto> FBool False, ''stoppedAt'' \<mapsto> v] ''driverId'' = None"
  "[''isActive'' \<mapsto> FBool False, ''stoppedAt'' \<mapsto> v] ''timestamp'' = None"
  by simp_all

lemma names_ref_iff:
  "names_ref (r, d) \<longleftrightarrow> (\<exists>k. d ''driverId'' = Some (FStr k) \<and> docRef k = Some r)"
  by (auto simp: names_ref_def split: option.splits fval.splits)

lemma names_ref_field:
  "names_ref kd \<Longrightarrow> snd kd ''driverId'' = Some (FStr k) \<Longrightarrow> docRef k = Some (fst kd)"
  by (cases kd) (auto simp: names_ref_iff)

lemma well_formed_setDoc_merge:
  assumes wf: "well_formed c"
    and id: "data ''driverId'' = None \<or> (\<exists>k. data ''driverId'' = Some (FStr k) \<and> docRef k = Some r)"
    and ts: "getDoc r c = None \<longrightarrow> data ''driverId'' \<noteq> None \<and> data ''timestamp'' \<noteq> None"
  shows "well_formed (setDoc_merge r data c)"
proof -
  from wf have dc: "distinct (map fst c)" by (simp add: well_formed_def)
  then have dn: "distinct (map fst (setDoc_merge r data c))" by (rule distinct_setDoc_merge)
  have "names_ref kd \<and> snd kd ''timestamp'' \<noteq> None"
    if mem: "kd \<in> set (setDoc_merge r data c)" for kd
  proof -
    obtain r' d' where kd: "kd = (r', d')" by (cases kd)
    from mem kd dn have g: "getDoc r' (setDoc_merge r data c) = Some d'"
      by (simp add: mem_iff_getDoc)
    show ?thesis
    proof (cases "r' = r")
      case False
      with g have "getDoc r' c = Some d'" by (simp add: getDoc_setDoc_merge)
      with dc have "(r', d') \<in> set c" by (simp add: mem_iff_getDoc)
      with wf kd show ?thesis by (auto simp: well_formed_def)
    next
      case True
      show ?thesis
      proof (cases "getDoc r c")
        case None
        with g True have d': "d' = Map.empty ++ data" by (simp add: getDoc_setDoc_merge)
        from None ts id obtain k where "data ''driverId'' = Some (FStr k)" "docRef k = Some r"
          and "data ''timestamp'' \<noteq> None" by auto
        with d' have "names_ref (r, d')" "d' ''timestamp'' \<noteq> None"
          by (auto simp: names_ref_iff map_add_def split: option.splits)
        with kd True show ?thesis by simp
      next
        case (Some d)
        with g True have d': "d' = d ++ data" by (simp add: getDoc_setDoc_merge)
        from Some dc have "(r, d) \<in> set c" by (simp add: mem_iff_getDoc)
        with wf have "names_ref (r, d)" and ots: "d ''timestamp'' \<noteq> None"
          by (auto simp: well_formed_def)
        then obtain k0 where old: "d ''driverId'' = Some (FStr k0)" "docRef k0 = Some r"
          by (auto simp: names_ref_iff)
        from ots d' have nts: "d' ''timestamp'' \<noteq> None"
          by (auto simp: map_add_def split: option.splits)
        from id have "names_ref (r, d')"
        proof
          assume "data ''driverId'' = None"
          with old d' show ?thesis by (auto simp: names_ref_iff map_add_def)
        next
          assume "\<exists>k. data ''driverId'' = Some (FStr k) \<and> docRef k = Some r"
          with d' show ?thesis by (auto simp: names_ref_iff map_add_def)
        qed
        with nts kd True show ?thesis by simp
      qed
    qed
  qed
  with dn show ?thesis by (simp add: well_formed_def)
qed

lemma well_formed_updateLiveLocation:
  assumes wf: "well_formed c"
  shows "well_formed (snd (updateLiveLocation l c))"
proof (cases "docRef (driverId l)")
  case None
  with wf show ?thesis by (simp add: updateLiveLocation_def)
next
  case (Some r)
  have "well_formed (setDoc_merge r (docFields l) c)"
    using wf by (rule well_formed_setDoc_merge) (simp_all add: docFields_simps Some)
  with Some show ?thesis by (simp add: updateLiveLocation_def)
qed

lemma well_formed_stopLiveLocation:
  assumes wf: "well_formed c"
  shows "well_formed (snd (stopLiveLocation k now c))"
proof (cases "docRef k")
  case None
  with wf show ?thesis by (simp add: stopLiveLocation_def)
next
  case r: (Some r)
  show ?thesis
  proof (cases "getDoc r c")
    case None
    with wf r show ?thesis by (simp add: stopLiveLocation_def updateDoc_def)
  next
    case (Some d)
    have "well_formed (setDoc_merge r [''isActive'' \<mapsto> FBool False, ''stoppedAt'' \<mapsto> FNum (Num (of_int now))] c)"
      using wf by (rule well_formed_setDoc_merge) (simp_all add: Some)
    with Some r show ?thesis by (simp add: stopLiveLocation_def updateDoc_def)
  qed
qed

lemma well_formed_apply_op: "well_formed c \<Longrightarrow> well_formed (apply_op x c)"
  by (cases x) (simp_all add: well_formed_updateLiveLocation well_formed_stopLiveLocation)

lemma well_formed_run: "well_formed c \<Longrightarrow> well_formed (run ops c)"
  unfolding run_def by (induction ops arbitrary: c) (simp_all add: well_formed_apply_op)

lemma well_formed_empty: "well_formed []"
  by (simp add: well_formed_def)

lemma at_most_one_with_key:
  "distinct (map fst c) \<Longrightarrow> length (filter (\<lambda>kd. fst kd = r \<and> P kd) c) \<le> 1"
proof (induction c)
  case Nil
  then show ?case by simp
next
  case (Cons x c)
  show ?case
  proof (cases "fst x = r")
    case True
    with Cons.prems have "r \<notin> fst ` set c" by auto
    then have "filter (\<lambda>kd. fst kd = r \<and> P kd) c = []" by (auto simp: filter_empty_conv)
    then show ?thesis by simp
  next
    case False
    with Cons show ?thesis by simp
  qed
qed

lemma active_of_driver_le_1:
  assumes wf: "well_formed c"
  shows "length (active_of_driver k c) \<le> 1"
proof (cases "docRef k")
  case None
  have "\<not> (snd kd ''driverId'' = Some (FStr k) \<and> snd kd ''isActive'' = Some (FBool True))"
    if "kd \<in> set c" for kd
  proof
    assume "snd kd ''driverId'' = Some (FStr k) \<and> snd kd ''isActive'' = Some (FBool True)"
    moreover from that wf have "names_ref kd" by (simp add: well_formed_def)
    ultimately have "docRef k = Some (fst kd)" by (simp add: names_ref_field)
    with None show False by simp
  qed
  then have "active_of_driver k c = []" by (simp add: active_of_driver_def filter_empty_conv)
  then show ?thesis by simp
next
  case (Some r)
  have "(snd kd ''driverId'' = Some (FStr k) \<and> snd kd ''isActive'' = Some (FBool True)) =
        (fst kd = r \<and> snd kd ''driverId'' = Some (FStr k) \<and> snd kd ''isActive'' = Some (FBool True))"
    if "kd \<in> set c" for kd
  proof -
    from that wf have "names_ref kd" by (simp add: well_formed_def)
    with Some show ?thesis by (auto dest: names_ref_field)
  qed
  then have "active_of_driver k c =
      filter (\<lambda>kd. fst kd = r \<and> snd kd ''driverId'' = Some (FStr k) \<and>
                    snd kd ''isActive'' = Some (FBool True)) c"
    unfolding active_of_driver_def by (rule filter_cong [OF refl])
  moreover from wf have "distinct (map fst c)" by (simp add: well_formed_def)
  then have "length (filter (\<lambda>kd. fst kd = r \<and> (snd kd ''driverId'' = Some (FStr k) \<and>
                    snd kd ''isActive'' = Some (FBool True))) c) \<le> 1"
    by (rule at_most_one_with_key)
  ultimately show ?thesis by simp
qed

lemma keys_setDoc_merge: "fst ` set (setDoc_merge r data c) = insert r (fst ` set c)"
proof -
  have "set (map fst (setDoc_merge r data c)) = insert r (set (map fst c))"
    unfolding map_fst_setDoc_merge by auto
  then show ?thesis by simp
qed

lemma keys_stopLiveLocation: "fst ` set (snd (stopLiveLocation k now c)) = fst ` set c"
proof (cases "docRef k")
  case None
  then show ?thesis by (simp add: stopLiveLocation_def)
next
  case r: (Some r)
  show ?thesis
  proof (cases "getDoc r c")
    case None
    with r show ?thesis by (simp add: stopLiveLocation_def updateDoc_def)
  next
    case (Some d)
    then have "r \<in> fst ` set c" using getDoc_None_iff [of r c] by auto
    with Some r show ?thesis
      by (auto simp: stopLiveLocation_def updateDoc_def keys_setDoc_merge)
  qed
qed

lemma keys_apply_op:
  "fst ` set (apply_op x c) =
     fst ` set c \<union>
     (case x of
        Publish l \<Rightarrow> (case docRef (driverId l) of None \<Rightarrow> {} | Some r \<Rightarrow> {r})
      | Deactivate k now \<Rightarrow> {})"
proof (cases x)
  case (Publish l)
  then show ?thesis
    by (cases "docRef (driverId l)") (simp_all add: updateLiveLocation_def keys_setDoc_merge)
next
  case (Deactivate k now)
  then show ?thesis by (simp add: keys_stopLiveLocation)
qed

lemma keys_run:
  "fst ` set (run ops c) = fst ` set c \<union> {r. \<exists>l. Publish l \<in> set ops \<and> docRef (driverId l) = Some r}"
  unfolding run_def
proof (induction ops arbitrary: c)
  case Nil
  then show ?case by simp
next
  case (Cons x ops)
  have "fst ` set (fold apply_op (x # ops) c) =
        fst ` set (apply_op x c) \<union> {r. \<exists>l. Publish l \<in> set ops \<and> docRef (driverId l) = Some r}"
    using Cons.IH [of "apply_op x c"] by simp
  also have "\<dots> = fst ` set c \<union> {r. \<exists>l. Publish l \<in> set (x # ops) \<and> docRef (driverId l) = Some r}"
    unfolding keys_apply_op by (cases x) (auto split: option.splits)
  finally show ?case .
qed

lemma set_insert_desc: "set (insert_desc f x ys) = insert x (set ys)"
  by (induction ys) auto

lemma set_orderBy_desc: "set (orderBy_desc f xs) = set xs"
  by (induction xs) (simp_all add: set_insert_desc)

lemma orderBy_desc_Nil_iff: "orderBy_desc f xs = [] \<longleftrightarrow> xs = []"
  using set_orderBy_desc [of f xs] by (metis set_empty)

lemma liveLocationQuery_subset:
  "set (liveLocationQuery b c) \<subseteq> set (active_of_bus b c)"
proof -
  have "set (liveLocationQuery b c) \<subseteq>
        set (orderBy_desc ''timestamp''
          (filter (\<lambda>kd. in_liveLocations kd \<and> where_eq ''busNumber'' (FStr b) kd \<and>
                        where_eq ''isActive'' (FBool True) kd \<and> has_field ''timestamp'' kd) c))"
    unfolding liveLocationQuery_def by (rule set_take_subset)
  then show ?thesis
    by (auto simp: set_orderBy_desc active_of_bus_def where_eq_def)
qed

lemma liveLocationQuery_Nil_iff:
  assumes "well_formed c"
  shows "liveLocationQuery b c = [] \<longleftrightarrow> active_of_bus b c = []"
proof -
  have "filter (\<lambda>kd. in_liveLocations kd \<and> where_eq ''busNumber'' (FStr b) kd \<and>
                      where_eq ''isActive'' (FBool True) kd \<and> has_field ''timestamp'' kd) c =
        active_of_bus b c"
    unfolding active_of_bus_def
    using assms by (intro filter_cong [OF refl]) (auto simp: well_formed_def where_eq_def has_field_def)
  then show ?thesis
    by (simp add: liveLocationQuery_def orderBy_desc_Nil_iff)
qed

lemma subscribe_None_iff:
  assumes "well_formed c"
  shows "subscribeToLiveLocation b c = None \<longleftrightarrow> active_of_bus b c = []"
proof -
  have "subscribeToLiveLocation b c = None \<longleftrightarrow> liveLocationQuery b c = []"
    by (cases "liveLocationQuery b c") (simp_all add: subscribeToLiveLocation_def)
  with assms show ?thesis by (simp add: liveLocationQuery_Nil_iff)
qed

lemma subscribe_Some:
  "subscribeToLiveLocation b c = Some d \<Longrightarrow> \<exists>r. (r, d) \<in> set (active_of_bus b c)"
proof -
  assume "subscribeToLiveLocation b c = Some d"
  then obtain kd rest where q: "liveLocationQuery b c = kd # rest" and d: "d = snd kd"
    by (auto simp: subscribeToLiveLocation_def split: list.splits)
  then have "kd \<in> set (active_of_bus b c)" using liveLocationQuery_subset [of b c] by auto
  with d show ?thesis by (cases kd) auto
qed

lemma stop_merge:
  "d ++ [''isActive'' \<mapsto> FBool False, ''stoppedAt'' \<mapsto> v] =
   d(''isActive'' \<mapsto> FBool False, ''stoppedAt'' \<mapsto> v)"
  by (rule ext) (simp add: map_add_def)

lemma getDoc_stopLiveLocation:
  "docRef k = Some r \<Longrightarrow>
   getDoc r' (snd (stopLiveLocation k now c)) =
     (if r' = r
      then map_option (\<lambda>d. d(''isActive'' \<mapsto> FBool False, ''stoppedAt'' \<mapsto> FNum (Num (of_int now))))
             (getDoc r c)
      else getDoc r' c)"
proof (cases "getDoc r c")
  case None
  assume "docRef k = Some r"
  with None show ?thesis by (auto simp: stopLiveLocation_def updateDoc_def)
next
  case (Some d)
  assume "docRef k = Some r"
  with Some show ?thesis
    by (simp add: stopLiveLocation_def updateDoc_def getDoc_setDoc_merge stop_merge)
qed

lemma active_of_bus_mem:
  "distinct (map fst c) \<Longrightarrow>
   (r, d) \<in> set (active_of_bus b c) \<longleftrightarrow>
     getDoc r c = Some d \<and> length r = 1 \<and> d ''busNumber'' = Some (FStr b) \<and>
     d ''isActive'' = Some (FBool True)"
  by (auto simp: active_of_bus_def in_liveLocations_def mem_iff_getDoc)

lemma active_after_stop:
  assumes wf: "well_formed c"
  shows "active_of_bus b (snd (stopLiveLocation k now c)) = [] \<longleftrightarrow>
         (\<forall>kd \<in> set (active_of_bus b c). docRef k = Some (fst kd))"
proof (cases "docRef k")
  case None
  have "active_of_bus b c = [] \<longleftrightarrow> (\<forall>kd \<in> set (active_of_bus b c). False)"
    by (cases "active_of_bus b c") auto
  with None show ?thesis by (simp add: stopLiveLocation_def)
next
  case (Some r)
  let ?c' = "snd (stopLiveLocation k now c)"
  from wf have wf': "well_formed ?c'" by (rule well_formed_stopLiveLocation)
  from wf have dc: "distinct (map fst c)" by (simp add: well_formed_def)
  from wf' have dc': "distinct (map fst ?c')" by (simp add: well_formed_def)
  have "active_of_bus b ?c' = [] \<longleftrightarrow> (\<forall>kd \<in> set (active_of_bus b c). fst kd = r)"
  proof
    assume e: "active_of_bus b ?c' = []"
    show "\<forall>kd \<in> set (active_of_bus b c). fst kd = r"
    proof
      fix kd assume m: "kd \<in> set (active_of_bus b c)"
      obtain r' d' where kd: "kd = (r', d')" by (cases kd)
      show "fst kd = r"
      proof (rule ccontr)
        assume "fst kd \<noteq> r"
        with kd have ne: "r' \<noteq> r" by simp
        from m kd dc have "getDoc r' c = Some d' \<and> length r' = 1 \<and>
            d' ''busNumber'' = Some (FStr b) \<and> d' ''isActive'' = Some (FBool True)"
          by (simp add: active_of_bus_mem)
        with ne Some have "getDoc r' ?c' = Some d' \<and> length r' = 1 \<and>
            d' ''busNumber'' = Some (FStr b) \<and> d' ''isActive'' = Some (FBool True)"
          by (simp add: getDoc_stopLiveLocation)
        with dc' have "(r', d') \<in> set (active_of_bus b ?c')" by (simp add: active_of_bus_mem)
        with e show False by simp
      qed
    qed
  next
    assume a: "\<forall>kd \<in> set (active_of_bus b c). fst kd = r"
    have "kd \<notin> set (active_of_bus b ?c')" for kd
    proof
      assume m: "kd \<in> set (active_of_bus b ?c')"
      obtain r' d' where kd: "kd = (r', d')" by (cases kd)
      from m kd dc' have g: "getDoc r' ?c' = Some d'" and len: "length r' = 1"
        and bus: "d' ''busNumber'' = Some (FStr b)"
        and on: "d' ''isActive'' = Some (FBool True)"
        by (simp_all add: active_of_bus_mem)
      show False
      proof (cases "r' = r")
        case True
        with g Some have "d' ''isActive'' = Some (FBool False)"
          by (auto simp: getDoc_stopLiveLocation)
        with on show False by simp
      next
        case False
        with g Some have "getDoc r' c = Some d'" by (simp add: getDoc_stopLiveLocation)
        with bus on len dc have "(r', d') \<in> set (active_of_bus b c)" by (simp add: active_of_bus_mem)
        with a have "r' = r" by auto
        with False show False by simp
      qed
    qed
    then show "active_of_bus b ?c' = []" by (meson last_in_set)
  qed
  with Some show ?thesis by auto
qed

text \<open>
  C1, as the specification states it, fails: the route that observers subscribe to is
  the \<^verbatim>\<open>busNumber\<close>, and a record is stored under its \<^verbatim>\<open>driverId\<close>. Two drivers who
  publish for bus \<open>B1\<close> leave two documents, both active for that route; the second
  publish adds a document and merges into none.
\<close>

theorem two_active_records_per_bus_C1:
  "length (active_of_bus ''B1'' (run [Publish driver1, Publish driver2] [])) = 2 \<and>
   map fst (run [Publish driver1, Publish driver2] []) = [[''d1''], [''d2'']]"
  by (simp add: run_def updateLiveLocation_def docRef_def active_of_bus_def in_liveLocations_def
      driver1_def driver2_def docFields_def)

text \<open>
  C1, amended: after any sequence of \<^verbatim>\<open>updateLiveLocation\<close> and \<^verbatim>\<open>stopLiveLocation\<close>
  calls on the empty store, at most one active record is stored under a document
  reference, and at most one active record carries a given \<^verbatim>\<open>driverId\<close>. Writing a
  record whose reference is present leaves the references of the store as they are and
  merges the record into the stored document.
\<close>

theorem one_active_record_per_key_C1:
  "length (active_at r (run ops [])) \<le> 1 \<and>
   length (active_of_driver k (run ops [])) \<le> 1 \<and>
   (\<forall>r' d. docRef (driverId l) = Some r' \<and> getDoc r' (run ops []) = Some d \<longrightarrow>
      map fst (snd (updateLiveLocation l (run ops []))) = map fst (run ops []) \<and>
      getDoc r' (snd (updateLiveLocation l (run ops []))) = Some (d ++ docFields l))"
proof -
  have wf: "well_formed (run ops [])" by (simp add: well_formed_run well_formed_empty)
  then have "distinct (map fst (run ops []))" by (simp add: well_formed_def)
  then have a: "length (active_at r (run ops [])) \<le> 1"
    unfolding active_at_def by (rule at_most_one_with_key)
  from wf have b: "length (active_of_driver k (run ops [])) \<le> 1"
    by (rule active_of_driver_le_1)
  have c: "map fst (snd (updateLiveLocation l (run ops []))) = map fst (run ops []) \<and>
      getDoc r' (snd (updateLiveLocation l (run ops []))) = Some (d ++ docFields l)"
    if "docRef (driverId l) = Some r' \<and> getDoc r' (run ops []) = Some d" for r' d
  proof -
    from that have "r' \<in> fst ` set (run ops [])"
      using getDoc_None_iff [of r' "run ops []"] by auto
    with that show ?thesis
      by (simp add: updateLiveLocation_def map_fst_setDoc_merge getDoc_setDoc_merge)
  qed
  from a b c show ?thesis by blast
qed

theorem one_active_record_per_key_C1_witness:
  "length (active_at [''d1''] (run [Publish driver1, Publish driver1] [])) \<le> 1 \<and>
   map fst (snd (updateLiveLocation driver1 (run [Publish driver1, Publish driver1] []))) = [[''d1'']]"
  using one_active_record_per_key_C1 [of "[''d1'']" "[Publish driver1, Publish driver1]" "''d1''" driver1]
  by (simp add: run_def updateLiveLocation_def docRef_def getDoc_def driver1_def)

text \<open>
  C2, as the specification states it, fails on two counts. The upsert is keyed by the
  \<^verbatim>\<open>driverId\<close>, not by the route: a publish of the second driver of bus \<open>B1\<close> leaves
  the record of the first as it was. And not every record is written: for the empty
  \<^verbatim>\<open>driverId\<close>, and for \<^verbatim>\<open>a/b\<close>, \<^verbatim>\<open>doc\<close> throws and nothing is stored.
\<close>

theorem updateLiveLocation_not_by_route_C2:
  "getDoc [''d1''] (snd (updateLiveLocation driver2 (snd (updateLiveLocation driver1 [])))) =
     Some (docFields driver1) \<and>
   updateLiveLocation (driver1\<lparr>driverId := ''''\<rparr>) [] = (Inl InvalidArgument, []) \<and>
   updateLiveLocation (driver1\<lparr>driverId := ''a/b''\<rparr>) [] = (Inl InvalidArgument, [])"
  by (simp add: updateLiveLocation_def docRef_def getDoc_def driver1_def driver2_def)

text \<open>
  C2, amended: \<^verbatim>\<open>updateLiveLocation\<close> is an idempotent upsert keyed by the record's
  \<^verbatim>\<open>driverId\<close>. When the \<^verbatim>\<open>driverId\<close> names a document, the stored document is the
  previous one, or the empty one, overwritten by the fields of the record, so no
  document need exist and a field the record does not have, such as \<^verbatim>\<open>stoppedAt\<close>,
  stays; no other document changes. When it names none, the call rejects and writes
  nothing. The stored \<^verbatim>\<open>isActive\<close> is the value the caller passed; the method sets
  none of its own.
\<close>

theorem updateLiveLocation_upsert_C2:
  "snd (updateLiveLocation l (snd (updateLiveLocation l c))) = snd (updateLiveLocation l c) \<and>
   (docRef (driverId l) = None \<longrightarrow> updateLiveLocation l c = (Inl InvalidArgument, c)) \<and>
   (\<forall>r. docRef (driverId l) = Some r \<longrightarrow>
      fst (updateLiveLocation l c) = Inr () \<and>
      getDoc r (snd (updateLiveLocation l c)) =
        Some ((case getDoc r c of None \<Rightarrow> Map.empty | Some d \<Rightarrow> d) ++ docFields l) \<and>
      (\<forall>r'. r' \<noteq> r \<longrightarrow> getDoc r' (snd (updateLiveLocation l c)) = getDoc r' c) \<and>
      (\<forall>d. getDoc r (snd (updateLiveLocation l c)) = Some d \<longrightarrow>
         d ''isActive'' = Some (FBool (isActive l)) \<and>
         (\<forall>d0. getDoc r c = Some d0 \<longrightarrow> d ''stoppedAt'' = d0 ''stoppedAt'')))"
proof (cases "docRef (driverId l)")
  case None
  then show ?thesis by (simp add: updateLiveLocation_def)
next
  case (Some r)
  have a: "snd (updateLiveLocation l (snd (updateLiveLocation l c))) = snd (updateLiveLocation l c)"
    using Some by (simp add: updateLiveLocation_def setDoc_merge_idem)
  have b: "getDoc r (snd (updateLiveLocation l c)) =
     Some ((case getDoc r c of None \<Rightarrow> Map.empty | Some d \<Rightarrow> d) ++ docFields l)"
    using Some by (simp add: updateLiveLocation_def getDoc_setDoc_merge)
  have c: "getDoc r' (snd (updateLiveLocation l c)) = getDoc r' c" if "r' \<noteq> r" for r'
    using that Some by (simp add: updateLiveLocation_def getDoc_setDoc_merge)
  have d: "d ''isActive'' = Some (FBool (isActive l)) \<and>
      (\<forall>d0. getDoc r c = Some d0 \<longrightarrow> d ''stoppedAt'' = d0 ''stoppedAt'')"
    if "getDoc r (snd (updateLiveLocation l c)) = Some d" for d
    using that unfolding b by (auto simp: map_add_def docFields_simps)
  have e: "fst (updateLiveLocation l c) = Inr ()"
    using Some by (simp add: updateLiveLocation_def)
  from a b c d e Some show ?thesis by auto
qed

theorem updateLiveLocation_upsert_C2_witness:
  "map_option (\<lambda>d. (d ''isActive'', d ''stoppedAt''))
     (getDoc [''d1''] (snd (updateLiveLocation driver1
        (snd (stopLiveLocation ''d1'' 3000 (snd (updateLiveLocation driver1 []))))))) =
   Some (Some (FBool True), Some (FNum (Num 3000))) \<and>
   updateLiveLocation (driver1\<lparr>driverId := ''''\<rparr>) [] = (Inl InvalidArgument, [])"
  using updateLiveLocation_upsert_C2
          [of driver1 "snd (stopLiveLocation ''d1'' 3000 (snd (updateLiveLocation driver1 [])))"]
        updateLiveLocation_upsert_C2 [of "driver1\<lparr>driverId := ''''\<rparr>" "[]"]
  by (simp add: updateLiveLocation_def stopLiveLocation_def updateDoc_def docRef_def getDoc_def
      driver1_def map_add_def)

text \<open>
  C6: on a stored record \<^verbatim>\<open>stopLiveLocation\<close> succeeds, sets \<^verbatim>\<open>isActive\<close> to
  \<^verbatim>\<open>false\<close> and \<^verbatim>\<open>stoppedAt\<close> to the current time, and changes no other field of
  the record, no other record and no reference.
\<close>

theorem stopLiveLocation_frame_C6:
  "docRef k = Some r \<Longrightarrow> getDoc r c = Some d \<Longrightarrow>
   fst (stopLiveLocation k now c) = Inr () \<and>
   getDoc r (snd (stopLiveLocation k now c)) =
     Some (d(''isActive'' \<mapsto> FBool False, ''stoppedAt'' \<mapsto> FNum (Num (of_int now)))) \<and>
   (\<forall>r'. r' \<noteq> r \<longrightarrow> getDoc r' (snd (stopLiveLocation k now c)) = getDoc r' c) \<and>
   map fst (snd (stopLiveLocation k now c)) = map fst c"
proof -
  assume r: "docRef k = Some r" and g: "getDoc r c = Some d"
  then have k: "r \<in> fst ` set c" using getDoc_None_iff [of r c] by auto
  from r g k show ?thesis
    by (simp add: stopLiveLocation_def updateDoc_def getDoc_setDoc_merge map_fst_setDoc_merge
        stop_merge)
qed

theorem stopLiveLocation_frame_C6_witness:
  "getDoc [''d1''] (snd (updateLiveLocation driver1 [])) = Some (docFields driver1) \<and>
   getDoc [''d1''] (snd (stopLiveLocation ''d1'' 3000 (snd (updateLiveLocation driver1 [])))) =
     Some ((docFields driver1)(''isActive'' \<mapsto> FBool False, ''stoppedAt'' \<mapsto> FNum (Num 3000)))"
proof -
  have r: "docRef ''d1'' = Some [''d1'']" by (simp add: docRef_def)
  have h: "getDoc [''d1''] (snd (updateLiveLocation driver1 [])) = Some (docFields driver1)"
    by (simp add: updateLiveLocation_def docRef_def getDoc_def driver1_def)
  from stopLiveLocation_frame_C6 [OF r h, of 3000] h show ?thesis by simp
qed

text \<open>
  C10: for a key without a record \<^verbatim>\<open>stopLiveLocation\<close> rejects and leaves the store as
  it was; it succeeds exactly when a record is stored under the key, which after a
  sequence of calls on the empty store is exactly when one of them was an
  \<^verbatim>\<open>updateLiveLocation\<close> for that document. The rejection is that of \<^verbatim>\<open>updateDoc\<close> on a
  missing document, or that of \<^verbatim>\<open>doc\<close> when the key names no document.
\<close>

theorem stopLiveLocation_missing_C10:
  "(\<forall>r. docRef k = Some r \<and> getDoc r c = None \<longrightarrow> stopLiveLocation k now c = (Inl NotFound, c)) \<and>
   (docRef k = None \<longrightarrow> stopLiveLocation k now c = (Inl InvalidArgument, c)) \<and>
   (fst (stopLiveLocation k now c) = Inr () \<longleftrightarrow> (\<exists>r. docRef k = Some r \<and> getDoc r c \<noteq> None)) \<and>
   (fst (stopLiveLocation k now (run ops [])) = Inr () \<longleftrightarrow>
      (\<exists>l. Publish l \<in> set ops \<and> docRef (driverId l) = docRef k \<and> docRef k \<noteq> None))"
proof -
  have a: "docRef k = Some r \<and> getDoc r c = None \<longrightarrow> stopLiveLocation k now c = (Inl NotFound, c)" for r c
    by (simp add: stopLiveLocation_def updateDoc_def)
  have a': "docRef k = None \<longrightarrow> stopLiveLocation k now c = (Inl InvalidArgument, c)" for c
    by (simp add: stopLiveLocation_def)
  have b: "fst (stopLiveLocation k now c) = Inr () \<longleftrightarrow> (\<exists>r. docRef k = Some r \<and> getDoc r c \<noteq> None)" for c
  proof (cases "docRef k")
    case None
    then show ?thesis by (simp add: stopLiveLocation_def)
  next
    case (Some r)
    then show ?thesis
      by (cases "getDoc r c") (simp_all add: stopLiveLocation_def updateDoc_def)
  qed
  have "getDoc r (run ops []) \<noteq> None \<longleftrightarrow> (\<exists>l. Publish l \<in> set ops \<and> docRef (driverId l) = Some r)" for r
    using keys_run [of ops "[]"] by (simp add: getDoc_None_iff)
  then have c: "fst (stopLiveLocation k now (run ops [])) = Inr () \<longleftrightarrow>
      (\<exists>l. Publish l \<in> set ops \<and> docRef (driverId l) = docRef k \<and> docRef k \<noteq> None)"
    unfolding b by (cases "docRef k") auto
  from a a' b c show ?thesis by blast
qed

theorem stopLiveLocation_missing_C10_witness:
  "stopLiveLocation ''d2'' 3000 (run [Publish driver1] []) =
     (Inl NotFound, run [Publish driver1] []) \<and>
   stopLiveLocation '''' 3000 (run [Publish driver1] []) =
     (Inl InvalidArgument, run [Publish driver1] []) \<and>
   fst (stopLiveLocation ''d1'' 3000 (run [Publish driver1] [])) = Inr ()"
  using stopLiveLocation_missing_C10 [of "''d2''" "run [Publish driver1] []" 3000 "[Publish driver1]"]
        stopLiveLocation_missing_C10 [of "''''" "run [Publish driver1] []" 3000 "[Publish driver1]"]
        stopLiveLocation_missing_C10 [of "''d1''" "run [Publish driver1] []" 3000 "[Publish driver1]"]
  by (simp add: run_def updateLiveLocation_def docRef_def getDoc_def driver1_def)

text \<open>
  C5, as the specification states it, fails: \<^verbatim>\<open>stopLiveLocation\<close> addresses a record
  by its \<^verbatim>\<open>driverId\<close>, the subscription selects by \<^verbatim>\<open>busNumber\<close>. With two drivers
  active on bus \<open>B1\<close>, after the first is deactivated the subscriber of \<open>B1\<close> is handed
  the record of the second, not \<^verbatim>\<open>null\<close>.
\<close>

theorem subscribe_after_stop_not_null_C5:
  "fst (stopLiveLocation ''d1'' 3000 (run [Publish driver1, Publish driver2] [])) = Inr () \<and>
   subscribeToLiveLocation ''B1''
     (snd (stopLiveLocation ''d1'' 3000 (run [Publish driver1, Publish driver2] []))) \<noteq> None"
  by (simp add: run_def updateLiveLocation_def stopLiveLocation_def updateDoc_def docRef_def
      getDoc_def subscribeToLiveLocation_def liveLocationQuery_def where_eq_def has_field_def
      in_liveLocations_def driver1_def driver2_def docFields_def)

text \<open>
  C5, amended: in every state reached by \<^verbatim>\<open>updateLiveLocation\<close> and
  \<^verbatim>\<open>stopLiveLocation\<close> calls, the argument of the callback is \<^verbatim>\<open>null\<close> exactly when
  no record of the collection with the subscribed \<^verbatim>\<open>busNumber\<close> is active, and an
  active record with that \<^verbatim>\<open>busNumber\<close> otherwise. After \<^verbatim>\<open>stopLiveLocation\<close> for a
  key it is \<^verbatim>\<open>null\<close> exactly when no record under another key was active with that
  \<^verbatim>\<open>busNumber\<close>.
\<close>

theorem subscribeToLiveLocation_null_C5:
  "(subscribeToLiveLocation b (run ops []) = None \<longleftrightarrow> active_of_bus b (run ops []) = []) \<and>
   (\<forall>d. subscribeToLiveLocation b (run ops []) = Some d \<longrightarrow>
      (\<exists>r. (r, d) \<in> set (active_of_bus b (run ops [])))) \<and>
   (subscribeToLiveLocation b (snd (stopLiveLocation k now (run ops []))) = None \<longleftrightarrow>
      (\<forall>kd \<in> set (active_of_bus b (run ops [])). docRef k = Some (fst kd)))"
proof -
  have wf: "well_formed (run ops [])" by (simp add: well_formed_run well_formed_empty)
  then have wf': "well_formed (snd (stopLiveLocation k now (run ops [])))"
    by (rule well_formed_stopLiveLocation)
  have a: "subscribeToLiveLocation b (run ops []) = None \<longleftrightarrow> active_of_bus b (run ops []) = []"
    using wf by (rule subscribe_None_iff)
  have c: "subscribeToLiveLocation b (snd (stopLiveLocation k now (run ops []))) = None \<longleftrightarrow>
      (\<forall>kd \<in> set (active_of_bus b (run ops [])). docRef k = Some (fst kd))"
    using subscribe_None_iff [OF wf', of b] active_after_stop [OF wf, of b k now] by simp
  from a c subscribe_Some [of b "run ops []"] show ?thesis by blast
qed

theorem subscribeToLiveLocation_null_C5_witness:
  "subscribeToLiveLocation ''B1'' (run [Publish driver1] []) \<noteq> None \<and>
   subscribeToLiveLocation ''B1'' (snd (stopLiveLocation ''d1'' 3000 (run [Publish driver1] []))) = None"
  using subscribeToLiveLocation_null_C5 [of "''B1''" "[Publish driver1]" "''d1''" 3000]
  by (simp add: run_def updateLiveLocation_def docRef_def active_of_bus_def in_liveLocations_def
      driver1_def docFields_def)

section \<open>Properties of the tracking session\<close>

lemma startTracking_fix:
  "initial_fix i = Position coords \<Longrightarrow>
   watches (snd (startTracking i (st, g))) = watches g @ [nextWatch g] \<and>
   isTracking (fst (startTracking i (st, g))) \<and>
   dash_watchId (fst (startTracking i (st, g))) = Some (nextWatch g)"
  by (simp add: startTracking_def startWatch_def watchPosition_def Let_def split: option.splits)

lemma startTracking_no_fix:
  "initial_fix i = PositionError e \<Longrightarrow>
   snd (startTracking i (st, g)) = g \<and>
   isTracking (fst (startTracking i (st, g))) = isTracking st \<and>
   dash_watchId (fst (startTracking i (st, g))) = dash_watchId st"
  by (simp add: startTracking_def requestLocationPermission_def Let_def split: geo_reply.splits)

lemma stopTracking_watches:
  "set (watches (snd (stopTracking (st, g)))) \<subseteq> set (watches g) \<and>
   \<not> isTracking (fst (stopTracking (st, g)))"
  by (auto simp: stopTracking_def clearWatch_def split: option.splits)

text \<open>
  C4, as the specification states it, fails: \<^verbatim>\<open>startTracking\<close> does not look at
  \<^verbatim>\<open>isTracking\<close>. Called again on the state that its first call left, with tracking
  on and watch \<open>0\<close> registered, it registers watch \<open>1\<close> beside it and overwrites the
  stored identifier; \<^verbatim>\<open>stopTracking\<close> then clears watch \<open>1\<close> and leaves watch \<open>0\<close>.
\<close>

theorem startTracking_twice_C4:
  "isTracking (fst (startTracking successful_start (newDriverDashboard, no_watches))) \<and>
   watches (snd (startTracking successful_start (newDriverDashboard, no_watches))) = [0] \<and>
   watches (snd (startTracking successful_start
                   (startTracking successful_start (newDriverDashboard, no_watches)))) = [0, 1] \<and>
   dash_watchId (fst (startTracking successful_start
                   (startTracking successful_start (newDriverDashboard, no_watches)))) = Some 1 \<and>
   watches (snd (stopTracking (startTracking successful_start
                   (startTracking successful_start (newDriverDashboard, no_watches))))) = [0]"
  by (simp add: startTracking_def startWatch_def watchPosition_def requestLocationPermission_def
      stopTracking_def clearWatch_def successful_start_def newDriverDashboard_def no_watches_def)

text \<open>
  C4, amended: the dashboard offers the start action only while \<^verbatim>\<open>isTracking\<close> is
  false; while it is true the button of the trip controls is the stop button, and a
  click on it registers no watch. \<^verbatim>\<open>startTracking\<close> itself has no check of the
  state: whenever its initial fetch succeeds it registers one more watch, stores that
  identifier and sets \<^verbatim>\<open>isTracking\<close>; when the fetch fails it registers none.
\<close>

theorem start_offered_when_idle_C4:
  "(isTracking st \<longrightarrow>
      trackingControl st = StopButton \<and>
      clickTrackingControl i (st, g) = stopTracking (st, g) \<and>
      set (watches (snd (clickTrackingControl i (st, g)))) \<subseteq> set (watches g)) \<and>
   (trackingControl st = StartButton False \<longleftrightarrow> \<not> isTracking st \<and> locationPermission st \<noteq> denied) \<and>
   (\<forall>coords. initial_fix i = Position coords \<longrightarrow>
      watches (snd (startTracking i (st, g))) = watches g @ [nextWatch g] \<and>
      isTracking (fst (startTracking i (st, g))) \<and>
      dash_watchId (fst (startTracking i (st, g))) = Some (nextWatch g)) \<and>
   (\<forall>e. initial_fix i = PositionError e \<longrightarrow>
      snd (startTracking i (st, g)) = g \<and>
      isTracking (fst (startTracking i (st, g))) = isTracking st)"
proof -
  have a: "trackingControl st = StopButton \<and>
      clickTrackingControl i (st, g) = stopTracking (st, g) \<and>
      set (watches (snd (clickTrackingControl i (st, g)))) \<subseteq> set (watches g)" if "isTracking st"
    using that stopTracking_watches [of st g]
    by (simp add: trackingControl_def clickTrackingControl_def)
  have b: "trackingControl st = StartButton False \<longleftrightarrow> \<not> isTracking st \<and> locationPermission st \<noteq> denied"
    by (simp add: trackingControl_def)
  from a b startTracking_fix [of i _ st g] startTracking_no_fix [of i _ st g] show ?thesis
    by blast
qed

theorem start_offered_when_idle_C4_witness:
  "clickTrackingControl successful_start (startTracking successful_start (newDriverDashboard, no_watches)) =
     stopTracking (startTracking successful_start (newDriverDashboard, no_watches)) \<and>
   watches (snd (startTracking successful_start (newDriverDashboard, no_watches))) = [0] \<and>
   snd (startTracking (successful_start\<lparr>initial_fix := PositionError ''denied''\<rparr>)
          (newDriverDashboard, no_watches)) = no_watches"
  using start_offered_when_idle_C4
          [of "fst (startTracking successful_start (newDriverDashboard, no_watches))" successful_start
              "snd (startTracking successful_start (newDriverDashboard, no_watches))"]
        start_offered_when_idle_C4 [of newDriverDashboard successful_start no_watches]
        start_offered_when_idle_C4
          [of newDriverDashboard "successful_start\<lparr>initial_fix := PositionError ''denied''\<rparr>" no_watches]
  by (simp add: successful_start_def no_watches_def startTracking_fix)



end
